theory Spec2Isabelle
  imports Main "HOL-Library.Code_Target_Numeral"
begin

section \<open>JavaScript values\<close>

text \<open>
  The plugin is untyped JavaScript: a configuration field can hold a value of any type, and
  \<^verbatim>\<open>mergeConfiguration\<close> inspects it with \<^verbatim>\<open>typeof\<close>, \<^verbatim>\<open>===\<close>, unary
  \<^verbatim>\<open>+\<close> and \<^verbatim>\<open>parseInt\<close>. The model has the primitive values and functions; functions
  are opaque and told apart by a name. Objects and arrays as configuration values are
  outside the model. Strings are lists of 8-bit characters.

  A number is a binary64 double: \<^verbatim>\<open>NaN\<close>, the two infinities, negative zero, and the
  finite values \<open>m * 2^e\<close>, written \<open>Fin m e\<close> with \<open>m\<close> odd (zero is \<open>Fin 0 0\<close>), so
  that equal numbers are equal terms. A double has 53 bits of mantissa, its last bit is at
  least \<open>2^-1074\<close>, and it is less than \<open>2^1024\<close>.
\<close>

datatype jsnum = NaN | PosInf | NegInf | NegZero | Fin int int

function normalise :: "int \<Rightarrow> int \<Rightarrow> jsnum" where
  "normalise m e =
     (if m = 0 then Fin 0 0
      else if m mod 2 = 0 then normalise (m div 2) (e + 1)
      else Fin m e)"
  by pat_completeness auto
termination
  by (relation "measure (\<lambda>(m, e). nat \<bar>m\<bar>)") auto

datatype jsval =
    JUndefined
  | JNull
  | JBool bool
  | JNum jsnum
  | JStr string
  | JFun string

definition typeof :: "jsval \<Rightarrow> string" where
  "typeof v =
     (case v of
        JUndefined \<Rightarrow> ''undefined''
      | JNull \<Rightarrow> ''object''
      | JBool b \<Rightarrow> ''boolean''
      | JNum n \<Rightarrow> ''number''
      | JStr s \<Rightarrow> ''string''
      | JFun f \<Rightarrow> ''function'')"

text \<open>
  \<^verbatim>\<open>a === b\<close> on numbers: \<^verbatim>\<open>NaN\<close> is not equal to itself, and the two zeros are
  equal.
\<close>

definition is_zero :: "jsnum \<Rightarrow> bool" where
  "is_zero x = (x = NegZero \<or> x = Fin 0 0)"

definition num_strict_eq :: "jsnum \<Rightarrow> jsnum \<Rightarrow> bool" where
  "num_strict_eq x y = (x \<noteq> NaN \<and> (x = y \<or> (is_zero x \<and> is_zero y)))"

definition strict_eq :: "jsval \<Rightarrow> jsval \<Rightarrow> bool" where
  "strict_eq a b =
     (case a of
        JNum x \<Rightarrow> (case b of JNum y \<Rightarrow> num_strict_eq x y | _ \<Rightarrow> False)
      | _ \<Rightarrow> a = b)"

text \<open>The truth value of a condition and of the left operand of \<^verbatim>\<open>||\<close>.\<close>

definition truthy :: "jsval \<Rightarrow> bool" where
  "truthy v =
     (case v of
        JUndefined \<Rightarrow> False
      | JNull \<Rightarrow> False
      | JBool b \<Rightarrow> b
      | JNum n \<Rightarrow> n \<noteq> NaN \<and> n \<noteq> NegZero \<and> n \<noteq> Fin 0 0
      | JStr s \<Rightarrow> s \<noteq> []
      | JFun f \<Rightarrow> True)"

definition js_or :: "jsval \<Rightarrow> jsval \<Rightarrow> jsval" where
  "js_or a b = (if truthy a then a else b)"

subsection \<open>Rounding to a double\<close>

text \<open>The number of bits of a natural number.\<close>

fun bitlen :: "nat \<Rightarrow> nat" where
  "bitlen n = (if n = 0 then 0 else Suc (bitlen (n div 2)))"

text \<open>The integer nearest to \<open>n / d\<close>, the even one of two that are equally near.\<close>

definition round_half_even :: "nat \<Rightarrow> nat \<Rightarrow> nat" where
  "round_half_even n d =
     (let f = n div d; r = n mod d
      in if 2 * r < d then f
         else if d < 2 * r then f + 1
         else if even f then f else f + 1)"

text \<open>
  The double nearest to the rational \<open>a / b\<close> (negated when \<open>neg\<close>), ties to even, as
  IEEE 754 rounds: \<open>p\<close> is the binary exponent of \<open>a / b\<close>, \<open>u\<close> the exponent of the last
  of 53 bits (not below that of the subnormal numbers), \<open>M\<close> the mantissa. What rounds to
  \<open>2^1024\<close> or more is infinite; what rounds to nothing is a zero of the same sign.
\<close>

definition round_double :: "bool \<Rightarrow> nat \<Rightarrow> nat \<Rightarrow> jsnum" where
  "round_double neg a b =
     (let d = int (bitlen a) - int (bitlen b);
          p = (if (if 0 \<le> d then b * 2 ^ nat d \<le> a else b \<le> a * 2 ^ nat (- d))
               then d else d - 1);
          u = max (p - 52) (- 1074);
          M = (if 0 \<le> u then round_half_even a (b * 2 ^ nat u)
               else round_half_even (a * 2 ^ nat (- u)) b)
      in if M = 0 then (if neg then NegZero else Fin 0 0)
         else if 971 < u \<or> (u = 971 \<and> M = 2 ^ 53) then (if neg then NegInf else PosInf)
         else normalise ((if neg then - 1 else 1) * int M) u)"

text \<open>The double nearest to the decimal \<open>m * 10^e\<close>.\<close>

definition decimal_to_double :: "bool \<Rightarrow> nat \<Rightarrow> int \<Rightarrow> jsnum" where
  "decimal_to_double neg m e =
     (if 0 \<le> e then round_double neg (m * 10 ^ nat e) 1
      else round_double neg m (10 ^ nat (- e)))"

subsection \<open>Numbers to strings\<close>

fun digits_of :: "nat \<Rightarrow> string" where
  "digits_of n =
     (if n < 10 then [''0123456789'' ! n]
      else digits_of (n div 10) @ [''0123456789'' ! (n mod 10)])"

text \<open>
  The position \<open>n\<close> of the decimal point of a positive rational \<open>a / b\<close>:
  \<open>10^(n-1) \<le> a / b < 10^n\<close>.
\<close>

function leading_zeros :: "nat \<Rightarrow> nat \<Rightarrow> nat" where
  "leading_zeros a b = (if a = 0 \<or> b \<le> a then 0 else Suc (leading_zeros (10 * a) b))"
  by pat_completeness auto
termination
  by (relation "measure (\<lambda>(a, b). b - a)") auto

definition magnitude :: "nat \<Rightarrow> nat \<Rightarrow> int" where
  "magnitude a b =
     (if b \<le> a then int (length (digits_of (a div b))) else 1 - int (leading_zeros a b))"

text \<open>
  \<^verbatim>\<open>Number::toString\<close> of ECMAScript prints the least number \<open>k\<close> of digits \<open>s\<close> such
  that \<open>s * 10^(n-k)\<close> is read back as the same double, and of these the nearest. For a
  given \<open>k\<close> the nearest decimal of \<open>k\<close> digits is the candidate; it denotes the double
  when it rounds to it. Seventeen digits always do.
\<close>

definition candidate :: "nat \<Rightarrow> nat \<Rightarrow> nat \<Rightarrow> nat \<times> nat \<times> int" where
  "candidate a b k =
     (let n = magnitude a b;
          t = int k - n;
          s = (if 0 \<le> t then round_half_even (a * 10 ^ nat t) b
               else round_half_even a (b * 10 ^ nat (- t)))
      in if s = 10 ^ k then (10 ^ (k - 1), k, n + 1) else (s, k, n))"

definition denotes :: "nat \<Rightarrow> nat \<Rightarrow> nat \<times> nat \<times> int \<Rightarrow> bool" where
  "denotes a b c =
     (case c of (s, k, n) \<Rightarrow> decimal_to_double False s (n - int k) = round_double False a b)"

definition shortest_digits :: "nat \<Rightarrow> nat \<Rightarrow> nat \<times> nat \<times> int" where
  "shortest_digits a b =
     (case List.find (denotes a b) (map (candidate a b) [1..<18]) of
        Some c \<Rightarrow> c
      | None \<Rightarrow> candidate a b 17)"

text \<open>
  With \<open>k\<close> digits and the decimal point after the \<open>n\<close>-th: plain notation when
  \<open>-6 < n \<le> 21\<close> and exponent notation otherwise.
\<close>

definition num_to_string :: "jsnum \<Rightarrow> string" where
  "num_to_string x =
     (case x of
        NaN \<Rightarrow> ''NaN''
      | PosInf \<Rightarrow> ''Infinity''
      | NegInf \<Rightarrow> ''-Infinity''
      | NegZero \<Rightarrow> ''0''
      | Fin m e \<Rightarrow>
          (if m = 0 then ''0''
           else
             let (s, k, n) =
                   (if 0 \<le> e then shortest_digits (nat \<bar>m\<bar> * 2 ^ nat e) 1
                    else shortest_digits (nat \<bar>m\<bar>) (2 ^ nat (- e)));
                 ds = digits_of s;
                 body =
                   (if int k \<le> n \<and> n \<le> 21 then ds @ replicate (nat (n - int k)) (CHR ''0'')
                    else if 0 < n \<and> n \<le> 21 then take (nat n) ds @ ''.'' @ drop (nat n) ds
                    else if - 6 < n \<and> n \<le> 0 then ''0.'' @ replicate (nat (- n)) (CHR ''0'') @ ds
                    else
                      (if k = 1 then ds else take 1 ds @ ''.'' @ drop 1 ds)
                      @ ''e'' @ (if 0 \<le> n - 1 then ''+'' else ''-'')
                      @ digits_of (nat \<bar>n - 1\<bar>))
             in (if m < 0 then ''-'' else []) @ body))"

text \<open>
  \<^verbatim>\<open>ToString\<close>. The text of a function is its source, which the model does not have: a
  fixed text stands for it.
\<close>

definition to_string :: "jsval \<Rightarrow> string" where
  "to_string v =
     (case v of
        JUndefined \<Rightarrow> ''undefined''
      | JNull \<Rightarrow> ''null''
      | JBool b \<Rightarrow> (if b then ''true'' else ''false'')
      | JNum n \<Rightarrow> num_to_string n
      | JStr s \<Rightarrow> s
      | JFun f \<Rightarrow> ''function () {}'')"

subsection \<open>Strings to numbers\<close>

definition is_ws :: "char \<Rightarrow> bool" where
  "is_ws c = (c \<in> set [CHR 0x09, CHR 0x0A, CHR 0x0B, CHR 0x0C, CHR 0x0D, CHR 0x20, CHR 0xA0])"

definition trim :: "string \<Rightarrow> string" where
  "trim s = rev (dropWhile is_ws (rev (dropWhile is_ws s)))"

definition digit_index :: "string \<Rightarrow> char \<Rightarrow> nat" where
  "digit_index ds c = length (takeWhile (\<lambda>d. d \<noteq> c) ds)"

definition is_digit :: "char \<Rightarrow> bool" where
  "is_digit c = (c \<in> set ''0123456789'')"

definition decimal_value :: "string \<Rightarrow> nat" where
  "decimal_value s = foldl (\<lambda>a c. 10 * a + digit_index ''0123456789'' c) 0 s"

definition radix_value :: "nat \<Rightarrow> string \<Rightarrow> string \<Rightarrow> jsnum" where
  "radix_value b ds s =
     (if s \<noteq> [] \<and> list_all (\<lambda>c. c \<in> set ds) s
      then round_double False (foldl (\<lambda>a c. b * a + digit_index ds c) 0 s) 1
      else NaN)"

text \<open>The sign of a literal: whether it is negative, and the rest of the text.\<close>

definition split_sign :: "string \<Rightarrow> bool \<times> string" where
  "split_sign s =
     (case s of
        [] \<Rightarrow> (False, [])
      | c # r \<Rightarrow>
          if c = CHR ''-'' then (True, r) else if c = CHR ''+'' then (False, r) else (False, s))"

text \<open>\<^verbatim>\<open>ExponentPart\<close>, or nothing: the exponent, \<open>None\<close> when the text is neither.\<close>

definition exponent_part :: "string \<Rightarrow> int option" where
  "exponent_part r =
     (case r of
        [] \<Rightarrow> Some 0
      | c # r' \<Rightarrow>
          if c = CHR ''e'' \<or> c = CHR ''E''
          then (let (neg, ds) = split_sign r'
                in if ds \<noteq> [] \<and> list_all is_digit ds
                   then Some ((if neg then - 1 else 1) * int (decimal_value ds)) else None)
          else None)"

text \<open>
  \<^verbatim>\<open>StrUnsignedDecimalLiteral\<close> other than \<^verbatim>\<open>Infinity\<close>: digits, an optional
  fraction and an optional exponent, with a digit before or after the point. The result is
  the decimal mantissa and exponent.
\<close>

definition unsigned_decimal :: "string \<Rightarrow> (nat \<times> int) option" where
  "unsigned_decimal t =
     (let ip = takeWhile is_digit t;
          r1 = dropWhile is_digit t;
          (fp, r2) =
            (case r1 of
               [] \<Rightarrow> ([], [])
             | c # r \<Rightarrow>
                 if c = CHR ''.'' then (takeWhile is_digit r, dropWhile is_digit r)
                 else ([], r1))
      in if ip = [] \<and> fp = [] then None
         else (case exponent_part r2 of
                 None \<Rightarrow> None
               | Some x \<Rightarrow> Some (decimal_value (ip @ fp), x - int (length fp))))"

text \<open>
  \<^verbatim>\<open>ToNumber\<close> of a string (\<^verbatim>\<open>StringNumericLiteral\<close>): white space is trimmed, the
  empty text is 0, a text that is no literal as a whole is \<^verbatim>\<open>NaN\<close>, and the value of
  a literal is rounded to the nearest double. (ECMAScript lets an engine ignore the digits
  after the twentieth; the engines round the whole literal, and so does the model.)
\<close>

definition string_to_number :: "string \<Rightarrow> jsnum" where
  "string_to_number s =
     (let t = trim s in
      if t = [] then Fin 0 0
      else if take 2 t = ''0x'' \<or> take 2 t = ''0X''
        then radix_value 16 ''0123456789abcdef'' (map (\<lambda>c. if c \<in> set ''ABCDEF''
               then ''abcdef'' ! digit_index ''ABCDEF'' c else c) (drop 2 t))
      else if take 2 t = ''0o'' \<or> take 2 t = ''0O'' then radix_value 8 ''01234567'' (drop 2 t)
      else if take 2 t = ''0b'' \<or> take 2 t = ''0B'' then radix_value 2 ''01'' (drop 2 t)
      else
        let (neg, u) = split_sign t in
        if u = ''Infinity'' then (if neg then NegInf else PosInf)
        else (case unsigned_decimal u of
                None \<Rightarrow> NaN
              | Some (m, e) \<Rightarrow> decimal_to_double neg m e))"

text \<open>\<^verbatim>\<open>ToNumber\<close>, which is what unary \<^verbatim>\<open>+\<close> computes.\<close>

definition to_number :: "jsval \<Rightarrow> jsnum" where
  "to_number v =
     (case v of
        JUndefined \<Rightarrow> NaN
      | JNull \<Rightarrow> Fin 0 0
      | JBool b \<Rightarrow> (if b then Fin 1 0 else Fin 0 0)
      | JNum n \<Rightarrow> n
      | JStr s \<Rightarrow> string_to_number s
      | JFun f \<Rightarrow> NaN)"

text \<open>
  \<^verbatim>\<open>parseInt(v, 10)\<close>: the text of \<open>v\<close>, leading white space skipped, an optional sign,
  then the longest run of decimal digits; \<^verbatim>\<open>NaN\<close> when there is no digit, else the
  double nearest to the integer that the digits denote, with the sign.
\<close>

definition parseInt10 :: "jsval \<Rightarrow> jsnum" where
  "parseInt10 v =
     (let (neg, u) = split_sign (dropWhile is_ws (to_string v));
          ds = takeWhile is_digit u
      in if ds = [] then NaN else round_double neg (decimal_value ds) 1)"

section \<open>Objects and the store\<close>

text \<open>
  An object is a finite map from property names to values; reading a property the object
  does not have gives \<^verbatim>\<open>undefined\<close>. Objects live in a store and are passed by
  address: the prototype's \<^verbatim>\<open>defaults\<close> object is shared by every instance, and the
  caller's options object may be any object of the page.
\<close>

type_synonym obj = "string \<rightharpoonup> jsval"

definition get_prop :: "obj \<Rightarrow> string \<Rightarrow> jsval" where
  "get_prop ob k = (case ob k of None \<Rightarrow> JUndefined | Some v \<Rightarrow> v)"

type_synonym addr = nat

record heap =
  next_addr :: addr
  cells :: "addr \<Rightarrow> obj"

text \<open>The object literal \<^verbatim>\<open>{}\<close>: a new, empty object.\<close>

definition new_object :: "heap \<Rightarrow> addr \<times> heap" where
  "new_object h =
     (next_addr h,
      h\<lparr>next_addr := Suc (next_addr h), cells := (cells h)(next_addr h := Map.empty)\<rparr>)"

definition read :: "heap \<Rightarrow> addr \<Rightarrow> string \<Rightarrow> jsval" where
  "read h a k = get_prop (cells h a) k"

definition store :: "heap \<Rightarrow> addr \<Rightarrow> string \<Rightarrow> jsval \<Rightarrow> heap" where
  "store h a k v = h\<lparr>cells := (cells h)(a := (cells h a)(k \<mapsto> v))\<rparr>"

text \<open>
  \<^verbatim>\<open>$.extend(target, source, ...)\<close> of jQuery, the shallow form the plugin calls. An
  argument that is \<^verbatim>\<open>null\<close> or \<^verbatim>\<open>undefined\<close> (here \<open>None\<close>) is skipped. Of an
  object every property is copied onto the target, except a property whose value is
  \<^verbatim>\<open>undefined\<close>, which jQuery leaves out. The sources are taken from left to right, so
  a later one overwrites an earlier one.
\<close>

definition extend_from :: "heap \<Rightarrow> addr \<Rightarrow> addr option \<Rightarrow> heap" where
  "extend_from h t src =
     (case src of
        None \<Rightarrow> h
      | Some s \<Rightarrow>
          h\<lparr>cells := (cells h)(t := (\<lambda>k.
               case cells h s k of
                 None \<Rightarrow> cells h t k
               | Some v \<Rightarrow> if v = JUndefined then cells h t k else Some v))\<rparr>)"

definition jq_extend :: "heap \<Rightarrow> addr \<Rightarrow> addr option list \<Rightarrow> heap" where
  "jq_extend h t srcs = foldl (\<lambda>h' src. extend_from h' t src) h srcs"

section \<open>The Numeric class\<close>

text \<open>
  An instance, as the constructor builds it: the DOM element, the caller's options and the
  options of the element's \<^verbatim>\<open>data-numeric-options\<close> attribute, and, once set, the
  resolved configuration and the last value seen. \<open>None\<close> is \<^verbatim>\<open>undefined\<close>. The
  options are objects, given by address; an argument that is a number, a boolean or a
  string has none of the configuration fields and is not modelled. The listeners that
  \<^verbatim>\<open>bindEventReceivers\<close> registers on the element are kept with the instance.
\<close>

datatype handler = ValidateLazy | ValidateLive

record numeric =
  element :: "nat option"
  options :: "addr option"
  metadata :: "addr option"
  config :: "addr option"
  elementLastValue :: "string option"
  listeners :: "(string \<times> handler) list"

definition Numeric :: "nat option \<Rightarrow> addr option \<Rightarrow> addr option \<Rightarrow> numeric" where
  "Numeric el opts meta =
     \<lparr>element = el, options = opts, metadata = meta, config = None,
      elementLastValue = None, listeners = []\<rparr>"

text \<open>
  \<^verbatim>\<open>Numeric.prototype.defaults\<close>, the object literal of the source, and the address
  where the one shared object lives. \<^verbatim>\<open>Numeric.defaults\<close> is the same object, which
  the page may edit.
\<close>

definition defaults :: obj where
  "defaults =
     map_of
       [(''negative'', JBool True),
        (''decimal'', JBool True),
        (''decimalPlaces'', JUndefined),
        (''delegateRemoval'', JBool True),
        (''delegateRealtime'', JBool True),
        (''callbackInvalidEntry'', JUndefined),
        (''callbackValidEntry'', JUndefined)]"

definition defaults_addr :: addr where
  "defaults_addr = 0"

subsection \<open>mergeConfiguration\<close>

text \<open>
  The first statement:
  \<^verbatim>\<open>this.config = $.extend({}, this.defaults, this.options, this.metadata)\<close>.
  The result is the address of the new object and the store.
\<close>

definition merge_sources :: "numeric \<Rightarrow> heap \<Rightarrow> addr \<times> heap" where
  "merge_sources this h =
     (let (c, h0) = new_object h
      in (c, jq_extend h0 c [Some defaults_addr, options this, metadata this]))"

text \<open>
  \<^verbatim>\<open>if (typeof this.config.<k> !== "boolean") { this.config.<k> = this.defaults.<k>; }\<close>,
  which the source writes out for \<^verbatim>\<open>negative\<close>, \<^verbatim>\<open>delegateRemoval\<close> and
  \<^verbatim>\<open>delegateRealtime\<close>.
\<close>

definition reset_non_boolean :: "string \<Rightarrow> addr \<Rightarrow> heap \<Rightarrow> heap" where
  "reset_non_boolean k c h =
     (if typeof (read h c k) \<noteq> ''boolean'' then store h c k (read h defaults_addr k) else h)"

text \<open>
  \<^verbatim>\<open>if ((this.config.decimal === false) || (typeof this.config.decimal === "string" &&
  this.config.decimal.length !== 1)) { this.config.decimal = this.defaults.decimal; }\<close>
\<close>

definition reset_decimal :: "addr \<Rightarrow> heap \<Rightarrow> heap" where
  "reset_decimal c h =
     (if strict_eq (read h c ''decimal'') (JBool False)
         \<or> (case read h c ''decimal'' of JStr s \<Rightarrow> length s \<noteq> 1 | _ \<Rightarrow> False)
      then store h c ''decimal'' (read h defaults_addr ''decimal'')
      else h)"

text \<open>\<^verbatim>\<open>if (typeof this.config.decimal !== "string") { this.config.decimal = "."; }\<close>\<close>

definition decimal_character :: "addr \<Rightarrow> heap \<Rightarrow> heap" where
  "decimal_character c h =
     (if typeof (read h c ''decimal'') \<noteq> ''string'' then store h c ''decimal'' (JStr ''.'') else h)"

text \<open>
  \<^verbatim>\<open>this.config.decimalPlaces = (this.config.decimalPlaces !== this.defaults.decimalPlaces &&
  +this.config.decimalPlaces !== parseInt(this.config.decimalPlaces, 10) ?
  this.defaults.decimalPlaces : +this.config.decimalPlaces);\<close>
\<close>

definition resolve_decimalPlaces :: "addr \<Rightarrow> heap \<Rightarrow> heap" where
  "resolve_decimalPlaces c h =
     store h c ''decimalPlaces''
       (if \<not> strict_eq (read h c ''decimalPlaces'') (read h defaults_addr ''decimalPlaces'')
           \<and> \<not> num_strict_eq (to_number (read h c ''decimalPlaces''))
                 (parseInt10 (read h c ''decimalPlaces''))
        then read h defaults_addr ''decimalPlaces''
        else JNum (to_number (read h c ''decimalPlaces'')))"

text \<open>
  \<^verbatim>\<open>if (typeof this.config.<k> !== "function") { this.config.<k> = undefined; }\<close>, for
  the two callbacks.
\<close>

definition reset_non_function :: "string \<Rightarrow> addr \<Rightarrow> heap \<Rightarrow> heap" where
  "reset_non_function k c h =
     (if typeof (read h c k) \<noteq> ''function'' then store h c k JUndefined else h)"

definition mergeConfiguration :: "numeric \<Rightarrow> heap \<Rightarrow> numeric \<times> heap" where
  "mergeConfiguration this h =
     (let (c, h1) = merge_sources this h;
          h2 = reset_non_boolean ''negative'' c h1;
          h3 = reset_decimal c h2;
          h4 = decimal_character c h3;
          h5 = resolve_decimalPlaces c h4;
          h6 = reset_non_boolean ''delegateRemoval'' c h5;
          h7 = reset_non_boolean ''delegateRealtime'' c h6;
          h8 = reset_non_function ''callbackInvalidEntry'' c h7;
          h9 = reset_non_function ''callbackValidEntry'' c h8
      in (this\<lparr>config := Some c\<rparr>, h9))"

text \<open>
  What the caller and the element attribute supply, for the statements about the merge: an
  address in use, and the object behind an optional argument (none for \<^verbatim>\<open>undefined\<close>).
\<close>

definition allocated :: "heap \<Rightarrow> addr option \<Rightarrow> bool" where
  "allocated h x = (case x of None \<Rightarrow> True | Some a \<Rightarrow> a < next_addr h)"

definition object_at :: "heap \<Rightarrow> addr option \<Rightarrow> obj" where
  "object_at h x = (case x of None \<Rightarrow> Map.empty | Some a \<Rightarrow> cells h a)"

section \<open>Change detection\<close>

datatype error = TypeError string | ReferenceError string

definition and_then :: "error + 'a \<Rightarrow> ('a \<Rightarrow> error + 'b) \<Rightarrow> error + 'b" where
  "and_then r f = (case r of Inl err \<Rightarrow> Inl err | Inr x \<Rightarrow> f x)"

text \<open>
  \<^verbatim>\<open>hasElementValueChanged\<close>. The first argument is what \<^verbatim>\<open>this.$element.val()\<close>
  returns during the call: the text of the field, or \<^verbatim>\<open>undefined\<close> when the instance
  has no element.
\<close>

definition hasElementValueChanged :: "string option \<Rightarrow> numeric \<Rightarrow> bool \<times> numeric" where
  "hasElementValueChanged val this =
     (if elementLastValue this = None then (True, this\<lparr>elementLastValue := val\<rparr>)
      else if elementLastValue this = val then (False, this)
      else (True, this\<lparr>elementLastValue := val\<rparr>))"

text \<open>\<^verbatim>\<open>this.config.<k>\<close>, which raises when \<^verbatim>\<open>this.config\<close> is not set.\<close>

definition this_config :: "numeric \<Rightarrow> heap \<Rightarrow> string \<Rightarrow> error + jsval" where
  "this_config this h k =
     (case config this of
        None \<Rightarrow> Inl (TypeError (''Cannot read property '' @ k @ '' of undefined''))
      | Some c \<Rightarrow> Inr (read h c k))"

text \<open>
  \<^verbatim>\<open>this.$element.on(events, $.proxy(handler, this))\<close>: on an empty jQuery set, which
  is what \<^verbatim>\<open>$(undefined)\<close> is, nothing is registered.
\<close>

definition on :: "numeric \<Rightarrow> string list \<Rightarrow> handler \<Rightarrow> numeric" where
  "on this events handle =
     (if element this = None then this
      else this\<lparr>listeners := listeners this @ map (\<lambda>ev. (ev, handle)) events\<rparr>)"

definition bindEventReceivers :: "string option \<Rightarrow> numeric \<Rightarrow> heap \<Rightarrow> error + numeric" where
  "bindEventReceivers val this h =
     (let (changed, this1) = hasElementValueChanged val this;
          this2 = on this1 [''change'', ''blur''] ValidateLazy
      in and_then (this_config this2 h ''delegateRealtime'') (\<lambda>realtime.
           if strict_eq realtime (JBool False) then Inr this2
           else Inr (on this2 [''keydown'', ''keypress'', ''keyup''] ValidateLive)))"

definition init :: "string option \<Rightarrow> numeric \<Rightarrow> heap \<Rightarrow> error + numeric \<times> heap" where
  "init val this h =
     (let (this1, h1) = mergeConfiguration this h
      in and_then (bindEventReceivers val this1 h1) (\<lambda>this2. Inr (this2, h1)))"

section \<open>Validation and notification\<close>

text \<open>
  The members of \<^verbatim>\<open>Numeric.prototype\<close> that are functions, and the value of
  \<^verbatim>\<open>this.<name>\<close> for a name that is no field of the instance: the prototype's
  function, or \<^verbatim>\<open>undefined\<close> when the prototype has no such member.
\<close>

definition prototype_methods :: "string list" where
  "prototype_methods =
     [''init'', ''mergeConfiguration'', ''bindEventReceivers'', ''hasElementValueChanged'',
      ''validate'', ''validateLive'', ''validateLazy'', ''validationResult'',
      ''buildEventObject'']"

definition this_method :: "string \<Rightarrow> jsval" where
  "this_method name =
     (if name \<in> set prototype_methods then JFun (''Numeric.prototype.'' @ name) else JUndefined)"

definition eventLookupTable :: "string \<rightharpoonup> string list" where
  "eventLookupTable =
     map_of
       [(''message'',
           [''An invalid character was entered within the text field.'',
            ''The text field contains valid characters.'']),
        (''eventType'',
           [''scr:numeric.entry_invalid'',
            ''scr:numeric.entry_valid''])]"

text \<open>The members of the prototype that hold a lookup table.\<close>

definition prototype_tables :: "string \<rightharpoonup> (string \<rightharpoonup> string list)" where
  "prototype_tables = map_of [(''eventLookupTable'', eventLookupTable)]"

text \<open>An array index: a number that is a non-negative integer.\<close>

definition array_index :: "jsnum \<Rightarrow> nat option" where
  "array_index i =
     (case i of
        Fin m e \<Rightarrow> if 0 \<le> m \<and> 0 \<le> e then Some (nat m * 2 ^ nat e) else None
      | NegZero \<Rightarrow> Some 0
      | _ \<Rightarrow> None)"

text \<open>
  \<^verbatim>\<open>this.<member>.<field>[i]\<close>: reading a property of \<^verbatim>\<open>undefined\<close> raises
  \<^verbatim>\<open>TypeError\<close>; an index outside the array gives \<^verbatim>\<open>undefined\<close>.
\<close>

definition table_entry :: "string \<Rightarrow> string \<Rightarrow> jsnum \<Rightarrow> error + jsval" where
  "table_entry member field i =
     (case prototype_tables member of
        None \<Rightarrow> Inl (TypeError (''Cannot read property '' @ field @ '' of undefined''))
      | Some t \<Rightarrow>
          (case t field of
             None \<Rightarrow> Inl (TypeError ''Cannot read property of undefined'')
           | Some xs \<Rightarrow>
               Inr (case array_index i of
                      None \<Rightarrow> JUndefined
                    | Some n \<Rightarrow> if n < length xs then JStr (xs ! n) else JUndefined)))"

text \<open>
  The global scope of the page. An identifier that is neither a parameter nor a local
  variable of the function, nor bound by the enclosing module function
  (\<^verbatim>\<open>window\<close>, \<^verbatim>\<open>$\<close>, \<^verbatim>\<open>undefined\<close>, \<^verbatim>\<open>Numeric\<close>), is looked up there, and
  reading one that is not defined raises \<^verbatim>\<open>ReferenceError\<close>.
\<close>

type_synonym globals = "string \<rightharpoonup> jsval"

definition global_var :: "globals \<Rightarrow> string \<Rightarrow> error + jsval" where
  "global_var g name =
     (case g name of
        None \<Rightarrow> Inl (ReferenceError (name @ '' is not defined''))
      | Some v \<Rightarrow> Inr v)"

text \<open>
  The event: the jQuery event of type \<^verbatim>\<open>eventType + "." + eventContext\<close> with its
  \<^verbatim>\<open>info\<close> property. The entries \<^verbatim>\<open>caller\<close> and \<^verbatim>\<open>element.resolved\<close> are the
  instance and its jQuery wrapper and are left out.
\<close>

record event =
  event_type :: string
  info_code :: jsnum
  info_message :: jsval
  info_type_name :: jsval
  info_type_context :: jsval
  info_element_value :: "string option"
  info_element_ref :: "nat option"

definition buildEventObject ::
  "globals \<Rightarrow> numeric \<Rightarrow> jsval \<Rightarrow> jsval \<Rightarrow> jsval \<Rightarrow> error + event" where
  "buildEventObject g this resultStatus customMessage typeContext =
     (let eventReturnCode = to_number resultStatus in
      and_then (global_var g ''message'') (\<lambda>message.
      and_then
        (if truthy message then Inr message
         else and_then (table_entry ''resultEventInfoLookup'' ''message'' eventReturnCode)
                (\<lambda>m. Inr (js_or m (JStr ''Unknown event type.'')))) (\<lambda>eventMessage.
      and_then (table_entry ''resultInfoLookup'' ''eventType'' eventReturnCode) (\<lambda>t.
        let eventType = js_or t (JStr ''scr:numeric.entry_validity_unknown'');
            eventContext = js_or typeContext (JStr ''standard'')
        in Inr \<lparr>event_type = to_string eventType @ ''.'' @ to_string eventContext,
                 info_code = eventReturnCode,
                 info_message = eventMessage,
                 info_type_name = eventType,
                 info_type_context = eventContext,
                 info_element_value = elementLastValue this,
                 info_element_ref = element this\<rparr>))))"

text \<open>
  Calling \<^verbatim>\<open>this.<name>(resultStatus, customMessage, typeContext)\<close> for an event. The
  one method of the prototype that takes these arguments and returns an event is
  \<^verbatim>\<open>buildEventObject\<close>; the result is \<open>None\<close> when \<^verbatim>\<open>this.<name>\<close> is not that
  function.
\<close>

definition event_method ::
  "globals \<Rightarrow> numeric \<Rightarrow> string \<Rightarrow> (jsval \<Rightarrow> jsval \<Rightarrow> jsval \<Rightarrow> error + event) option" where
  "event_method g this name =
     (if this_method name = JFun ''Numeric.prototype.buildEventObject''
      then Some (buildEventObject g this) else None)"

text \<open>
  What a method returns: the instance (\<^verbatim>\<open>this\<close>), a function bound by
  \<^verbatim>\<open>$.proxy\<close>, or \<^verbatim>\<open>undefined\<close>. \<^verbatim>\<open>$.proxy(fn, this, e)\<close> of jQuery returns a
  new function that will call \<^verbatim>\<open>fn\<close> on \<^verbatim>\<open>this\<close> with \<^verbatim>\<open>e\<close>, without calling
  it, and returns \<^verbatim>\<open>undefined\<close> when \<^verbatim>\<open>fn\<close> is not a function.
\<close>

datatype retval = Self | Bound string event | Undefined

definition proxy :: "jsval \<Rightarrow> event \<Rightarrow> retval" where
  "proxy fn e = (case fn of JFun f \<Rightarrow> Bound f e | _ \<Rightarrow> Undefined)"

text \<open>
  \<^verbatim>\<open>this.$element.trigger(e)\<close>: the events published on the element. The outcome of
  a call is these events, with the value returned or the exception raised.
\<close>

definition trigger :: "numeric \<Rightarrow> event \<Rightarrow> event list" where
  "trigger this e = (if element this = None then [] else [e])"

type_synonym outcome = "event list \<times> (error + retval)"

definition validationResult ::
  "globals \<Rightarrow> numeric \<Rightarrow> heap \<Rightarrow> jsval \<Rightarrow> jsval \<Rightarrow> jsval \<Rightarrow> outcome" where
  "validationResult g this h resultStatus customMessage typeContext =
     (case event_method g this ''buildEvent'' of
        None \<Rightarrow> ([], Inl (TypeError ''this.buildEvent is not a function''))
      | Some build \<Rightarrow>
          (case build resultStatus customMessage typeContext of
             Inl err \<Rightarrow> ([], Inl err)
           | Inr e \<Rightarrow>
               (trigger this e,
                and_then (global_var g ''result'') (\<lambda>result.
                  if strict_eq result (JBool True)
                  then and_then (this_config this h ''callbackValidEntry'')
                         (\<lambda>cb. Inr (proxy cb e))
                  else and_then (this_config this h ''callbackInvalidEntry'')
                         (\<lambda>cb. Inr (proxy cb e))))))"

text \<open>
  The guard \<^verbatim>\<open>this.hasElementValueChanged === false\<close> of the three validation methods
  compares the method itself, not the result of calling it.
\<close>

definition validateLive :: "globals \<Rightarrow> numeric \<Rightarrow> heap \<Rightarrow> outcome" where
  "validateLive g this h =
     (if strict_eq (this_method ''hasElementValueChanged'') (JBool False) then ([], Inr Self)
      else validationResult g this h (JBool False) (JStr ''Character % not allowed.'') JUndefined)"

definition validateLazy :: "globals \<Rightarrow> numeric \<Rightarrow> heap \<Rightarrow> outcome" where
  "validateLazy g this h =
     (if strict_eq (this_method ''hasElementValueChanged'') (JBool False) then ([], Inr Self)
      else validationResult g this h (JBool True) JUndefined JUndefined)"

text \<open>
  \<^verbatim>\<open>this.validateLive().validateLazy()\<close> calls the second method on what the first
  returned, which has that method only when it is the instance.
\<close>

definition validate :: "globals \<Rightarrow> numeric \<Rightarrow> heap \<Rightarrow> outcome" where
  "validate g this h =
     (if element this = None then ([], Inr Self)
      else if strict_eq (this_method ''hasElementValueChanged'') (JBool False) then ([], Inr Self)
      else
        (case validateLive g this h of
           (evs, Inl err) \<Rightarrow> (evs, Inl err)
         | (evs, Inr r) \<Rightarrow>
             (case r of
                Self \<Rightarrow>
                  (case validateLazy g this h of
                     (evs', Inl err) \<Rightarrow> (evs @ evs', Inl err)
                   | (evs', Inr r') \<Rightarrow> (evs @ evs', Inr Self))
              | _ \<Rightarrow> (evs, Inl (TypeError ''validateLazy is not a function'')))))"

section \<open>Notions used in the statements\<close>

text \<open>A number whose value is an integer: a zero, or \<open>m * 2^e\<close> with \<open>2^-e\<close> dividing \<open>m\<close>.\<close>

definition is_integer :: "jsnum \<Rightarrow> bool" where
  "is_integer x =
     (case x of
        Fin m e \<Rightarrow> 0 \<le> e \<or> 2 ^ nat (- e) dvd m
      | NegZero \<Rightarrow> True
      | _ \<Rightarrow> False)"

text \<open>
  The value that the caller and the element attribute supply for a field: the attribute's
  when it gives one, else the caller's; \<^verbatim>\<open>undefined\<close> when neither gives one.
\<close>

definition supplied :: "heap \<Rightarrow> numeric \<Rightarrow> string \<Rightarrow> jsval" where
  "supplied h this k =
     (if get_prop (object_at h (metadata this)) k \<noteq> JUndefined
      then get_prop (object_at h (metadata this)) k
      else get_prop (object_at h (options this)) k)"

text \<open>
  The override order in the words of the specification: the value of \<open>M\<close> when the field
  is present in \<open>M\<close>, otherwise that of \<open>U\<close> when present in \<open>U\<close>, otherwise that of
  \<open>D\<close>.
\<close>

definition override_present :: "obj \<Rightarrow> obj \<Rightarrow> obj \<Rightarrow> string \<Rightarrow> jsval" where
  "override_present D U M k =
     (case M k of
        Some v \<Rightarrow> v
      | None \<Rightarrow> (case U k of Some v \<Rightarrow> v | None \<Rightarrow> get_prop D k))"

text \<open>
  The override order of the code: a field counts as given when its value is not
  \<^verbatim>\<open>undefined\<close>.
\<close>

definition override_defined :: "obj \<Rightarrow> obj \<Rightarrow> obj \<Rightarrow> string \<Rightarrow> jsval" where
  "override_defined D U M k =
     (if get_prop M k \<noteq> JUndefined then get_prop M k
      else if get_prop U k \<noteq> JUndefined then get_prop U k
      else get_prop D k)"

section \<open>The store under mergeConfiguration\<close>

declare normalise.simps [simp del]
declare bitlen.simps [simp del]
declare digits_of.simps [simp del]
declare leading_zeros.simps [simp del]

lemma read_store: "read (store h a k v) a' k' = (if a' = a \<and> k' = k then v else read h a' k')"
  by (simp add: read_def store_def get_prop_def)

lemma cells_store_other: "a' \<noteq> a \<Longrightarrow> cells (store h a k v) a' = cells h a'"
  by (simp add: store_def)

lemma cells_extend_from_other: "a \<noteq> t \<Longrightarrow> cells (extend_from h t src) a = cells h a"
  by (simp add: extend_from_def split: option.splits)

lemma read_extend_from:
  "read (extend_from h t src) t k =
     (if get_prop (object_at h src) k \<noteq> JUndefined then get_prop (object_at h src) k
      else read h t k)"
  by (simp add: extend_from_def read_def get_prop_def object_at_def split: option.splits)

lemma merge_sources_fst: "fst (merge_sources this h) = next_addr h"
  by (simp add: merge_sources_def new_object_def)

lemma merge_sources_other:
  "a \<noteq> next_addr h \<Longrightarrow> cells (snd (merge_sources this h)) a = cells h a"
  by (simp add: merge_sources_def new_object_def jq_extend_def cells_extend_from_other)

lemma merge_sources_read:
  assumes "defaults_addr < next_addr h" "allocated h (options this)" "allocated h (metadata this)"
  shows "read (snd (merge_sources this h)) (next_addr h) k =
     override_defined (cells h defaults_addr) (object_at h (options this))
       (object_at h (metadata this)) k"
proof -
  define c where "c = next_addr h"
  define h0 where "h0 = h\<lparr>next_addr := Suc c, cells := (cells h)(c := Map.empty)\<rparr>"
  define h1 where "h1 = extend_from h0 c (Some defaults_addr)"
  define h2 where "h2 = extend_from h1 c (options this)"
  define h3 where "h3 = extend_from h2 c (metadata this)"
  have ms: "snd (merge_sources this h) = h3"
    by (simp add: merge_sources_def new_object_def jq_extend_def c_def h0_def h1_def h2_def h3_def)
  have o0: "object_at h0 x = object_at h x" if "allocated h x" for x
    using that by (auto simp add: object_at_def allocated_def h0_def c_def split: option.splits)
  have d0: "cells h0 defaults_addr = cells h defaults_addr"
    using assms(1) by (simp add: h0_def c_def)
  have r0: "read h0 c k = JUndefined"
    by (simp add: h0_def read_def get_prop_def)
  have r1: "read h1 c k = get_prop (cells h defaults_addr) k"
    unfolding h1_def by (simp add: read_extend_from object_at_def d0 r0)
  have o1: "object_at h1 x = object_at h x" if "allocated h x" for x
  proof -
    have "object_at h1 x = object_at h0 x"
      unfolding h1_def using that
      by (auto simp add: object_at_def allocated_def c_def cells_extend_from_other
          split: option.splits)
    then show ?thesis using o0 [OF that] by simp
  qed
  have r2: "read h2 c k =
     (if get_prop (object_at h (options this)) k \<noteq> JUndefined
      then get_prop (object_at h (options this)) k
      else get_prop (cells h defaults_addr) k)"
    unfolding h2_def by (simp add: read_extend_from o1 [OF assms(2)] r1)
  have o2: "object_at h2 x = object_at h x" if "allocated h x" for x
  proof -
    have "object_at h2 x = object_at h1 x"
      unfolding h2_def using that
      by (auto simp add: object_at_def allocated_def c_def cells_extend_from_other
          split: option.splits)
    then show ?thesis using o1 [OF that] by simp
  qed
  have "read h3 c k =
     (if get_prop (object_at h (metadata this)) k \<noteq> JUndefined
      then get_prop (object_at h (metadata this)) k
      else read h2 c k)"
    unfolding h3_def by (simp add: read_extend_from o2 [OF assms(3)])
  then have "read h3 c k =
     override_defined (cells h defaults_addr) (object_at h (options this))
       (object_at h (metadata this)) k"
    by (simp add: r2 override_defined_def)
  then show ?thesis
    by (simp add: ms c_def)
qed

lemma read_defaults_merge_sources:
  "defaults_addr < next_addr h \<Longrightarrow>
     read (snd (merge_sources this h)) defaults_addr k = read h defaults_addr k"
  by (simp add: read_def merge_sources_other)

subsection \<open>The statements of mergeConfiguration, one by one\<close>

lemma reset_non_boolean_other:
  "a \<noteq> c \<or> k' \<noteq> k \<Longrightarrow> read (reset_non_boolean k c h) a k' = read h a k'"
  by (auto simp add: reset_non_boolean_def read_store)

lemma reset_decimal_other:
  "a \<noteq> c \<or> k' \<noteq> ''decimal'' \<Longrightarrow> read (reset_decimal c h) a k' = read h a k'"
  by (auto simp add: reset_decimal_def read_store)

lemma decimal_character_other:
  "a \<noteq> c \<or> k' \<noteq> ''decimal'' \<Longrightarrow> read (decimal_character c h) a k' = read h a k'"
  by (auto simp add: decimal_character_def read_store)

lemma resolve_decimalPlaces_other:
  "a \<noteq> c \<or> k' \<noteq> ''decimalPlaces'' \<Longrightarrow> read (resolve_decimalPlaces c h) a k' = read h a k'"
  by (auto simp add: resolve_decimalPlaces_def read_store)

lemma reset_non_function_other:
  "a \<noteq> c \<or> k' \<noteq> k \<Longrightarrow> read (reset_non_function k c h) a k' = read h a k'"
  by (auto simp add: reset_non_function_def read_store)

lemmas step_other = reset_non_boolean_other reset_decimal_other decimal_character_other
  resolve_decimalPlaces_other reset_non_function_other

lemma reset_non_boolean_same:
  "read (reset_non_boolean k c h) c k =
     (if typeof (read h c k) \<noteq> ''boolean'' then read h defaults_addr k else read h c k)"
  by (simp add: reset_non_boolean_def read_store)

lemma reset_decimal_same:
  "read (reset_decimal c h) c ''decimal'' =
     (if strict_eq (read h c ''decimal'') (JBool False)
         \<or> (case read h c ''decimal'' of JStr s \<Rightarrow> length s \<noteq> 1 | _ \<Rightarrow> False)
      then read h defaults_addr ''decimal''
      else read h c ''decimal'')"
  by (simp add: reset_decimal_def read_store)

lemma decimal_character_same:
  "read (decimal_character c h) c ''decimal'' =
     (if typeof (read h c ''decimal'') \<noteq> ''string'' then JStr ''.'' else read h c ''decimal'')"
  by (simp add: decimal_character_def read_store)

lemma resolve_decimalPlaces_same:
  "read (resolve_decimalPlaces c h) c ''decimalPlaces'' =
     (if \<not> strict_eq (read h c ''decimalPlaces'') (read h defaults_addr ''decimalPlaces'')
         \<and> \<not> num_strict_eq (to_number (read h c ''decimalPlaces''))
               (parseInt10 (read h c ''decimalPlaces''))
      then read h defaults_addr ''decimalPlaces''
      else JNum (to_number (read h c ''decimalPlaces'')))"
  by (simp add: resolve_decimalPlaces_def read_store)

lemma reset_non_function_same:
  "read (reset_non_function k c h) c k =
     (if typeof (read h c k) \<noteq> ''function'' then JUndefined else read h c k)"
  by (simp add: reset_non_function_def read_store)

lemma mergeConfiguration_unfold:
  "mergeConfiguration this h =
     (this\<lparr>config := Some (next_addr h)\<rparr>,
      reset_non_function ''callbackValidEntry'' (next_addr h)
       (reset_non_function ''callbackInvalidEntry'' (next_addr h)
         (reset_non_boolean ''delegateRealtime'' (next_addr h)
           (reset_non_boolean ''delegateRemoval'' (next_addr h)
             (resolve_decimalPlaces (next_addr h)
               (decimal_character (next_addr h)
                 (reset_decimal (next_addr h)
                   (reset_non_boolean ''negative'' (next_addr h)
                     (snd (merge_sources this h))))))))))"
  by (simp add: mergeConfiguration_def split_def Let_def merge_sources_fst)

lemma this_config_mergeConfiguration:
  "this_config (fst (mergeConfiguration this h)) h' k = Inr (read h' (next_addr h) k)"
  by (simp add: mergeConfiguration_unfold this_config_def)

lemma resolved_negative:
  assumes "defaults_addr < next_addr h"
  shows "read (snd (mergeConfiguration this h)) (next_addr h) ''negative'' =
     (if typeof (read (snd (merge_sources this h)) (next_addr h) ''negative'') \<noteq> ''boolean''
      then read h defaults_addr ''negative''
      else read (snd (merge_sources this h)) (next_addr h) ''negative'')"
  using assms
  by (simp add: mergeConfiguration_unfold step_other reset_non_boolean_same
      read_defaults_merge_sources)

lemma resolved_decimal:
  assumes "defaults_addr < next_addr h"
  shows "read (snd (mergeConfiguration this h)) (next_addr h) ''decimal'' =
     (let v = read (snd (merge_sources this h)) (next_addr h) ''decimal'';
          w = (if strict_eq v (JBool False) \<or> (case v of JStr s \<Rightarrow> length s \<noteq> 1 | _ \<Rightarrow> False)
               then read h defaults_addr ''decimal'' else v)
      in if typeof w \<noteq> ''string'' then JStr ''.'' else w)"
  using assms
  by (simp add: mergeConfiguration_unfold step_other reset_decimal_same decimal_character_same
      read_defaults_merge_sources Let_def)

lemma resolved_decimalPlaces:
  assumes "defaults_addr < next_addr h"
  shows "read (snd (mergeConfiguration this h)) (next_addr h) ''decimalPlaces'' =
     (let v = read (snd (merge_sources this h)) (next_addr h) ''decimalPlaces''
      in if \<not> strict_eq v (read h defaults_addr ''decimalPlaces'')
            \<and> \<not> num_strict_eq (to_number v) (parseInt10 v)
         then read h defaults_addr ''decimalPlaces''
         else JNum (to_number v))"
  using assms
  by (simp add: mergeConfiguration_unfold step_other resolve_decimalPlaces_same
      read_defaults_merge_sources Let_def)

lemma resolved_delegateRemoval:
  assumes "defaults_addr < next_addr h"
  shows "read (snd (mergeConfiguration this h)) (next_addr h) ''delegateRemoval'' =
     (if typeof (read (snd (merge_sources this h)) (next_addr h) ''delegateRemoval'') \<noteq> ''boolean''
      then read h defaults_addr ''delegateRemoval''
      else read (snd (merge_sources this h)) (next_addr h) ''delegateRemoval'')"
  using assms
  by (simp add: mergeConfiguration_unfold step_other reset_non_boolean_same
      read_defaults_merge_sources)

lemma resolved_delegateRealtime:
  assumes "defaults_addr < next_addr h"
  shows "read (snd (mergeConfiguration this h)) (next_addr h) ''delegateRealtime'' =
     (if typeof (read (snd (merge_sources this h)) (next_addr h) ''delegateRealtime'') \<noteq> ''boolean''
      then read h defaults_addr ''delegateRealtime''
      else read (snd (merge_sources this h)) (next_addr h) ''delegateRealtime'')"
  using assms
  by (simp add: mergeConfiguration_unfold step_other reset_non_boolean_same
      read_defaults_merge_sources)

lemma resolved_callbackInvalidEntry:
  "read (snd (mergeConfiguration this h)) (next_addr h) ''callbackInvalidEntry'' =
     (if typeof (read (snd (merge_sources this h)) (next_addr h) ''callbackInvalidEntry'')
          \<noteq> ''function''
      then JUndefined
      else read (snd (merge_sources this h)) (next_addr h) ''callbackInvalidEntry'')"
  by (simp add: mergeConfiguration_unfold step_other reset_non_function_same)

lemma resolved_callbackValidEntry:
  "read (snd (mergeConfiguration this h)) (next_addr h) ''callbackValidEntry'' =
     (if typeof (read (snd (merge_sources this h)) (next_addr h) ''callbackValidEntry'')
          \<noteq> ''function''
      then JUndefined
      else read (snd (merge_sources this h)) (next_addr h) ''callbackValidEntry'')"
  by (simp add: mergeConfiguration_unfold step_other reset_non_function_same)

section \<open>Notification\<close>

lemma this_method_buildEvent: "this_method ''buildEvent'' = JUndefined"
  by (simp add: this_method_def prototype_methods_def)

lemma guard_never_holds: "\<not> strict_eq (this_method ''hasElementValueChanged'') (JBool False)"
  by (simp add: this_method_def prototype_methods_def strict_eq_def)

lemma validationResult_TypeError:
  "validationResult g this h resultStatus customMessage typeContext =
     ([], Inl (TypeError ''this.buildEvent is not a function''))"
  by (simp add: validationResult_def event_method_def this_method_buildEvent)

lemma buildEventObject_raises:
  "\<exists>err. buildEventObject g this resultStatus customMessage typeContext = Inl err"
  by (auto simp add: buildEventObject_def and_then_def global_var_def table_entry_def
      prototype_tables_def Let_def split: option.splits sum.splits)

lemma validateLive_TypeError:
  "validateLive g this h = ([], Inl (TypeError ''this.buildEvent is not a function''))"
  by (simp add: validateLive_def guard_never_holds validationResult_TypeError)

lemma validateLazy_TypeError:
  "validateLazy g this h = ([], Inl (TypeError ''this.buildEvent is not a function''))"
  by (simp add: validateLazy_def guard_never_holds validationResult_TypeError)

lemma validate_unattached: "element this = None \<Longrightarrow> validate g this h = ([], Inr Self)"
  by (simp add: validate_def)

lemma validate_attached:
  "element this = Some el \<Longrightarrow>
     validate g this h = ([], Inl (TypeError ''this.buildEvent is not a function''))"
  by (simp add: validate_def guard_never_holds validateLive_TypeError)

lemma on_element: "element (on this events handle) = element this"
  by (simp add: on_def)

lemma on_config: "config (on this events handle) = config this"
  by (simp add: on_def)

lemma hasElementValueChanged_element:
  "element (snd (hasElementValueChanged val this)) = element this"
  by (simp add: hasElementValueChanged_def)

lemma hasElementValueChanged_config:
  "config (snd (hasElementValueChanged val this)) = config this"
  by (simp add: hasElementValueChanged_def)

lemma bindEventReceivers_element:
  "bindEventReceivers val this h = Inr this' \<Longrightarrow> element this' = element this"
  by (auto simp add: bindEventReceivers_def split_def Let_def and_then_def on_element
      hasElementValueChanged_element split: sum.splits if_splits)

lemma bindEventReceivers_succeeds:
  "config this = Some c \<Longrightarrow> \<exists>this'. bindEventReceivers val this h = Inr this'"
  by (simp add: bindEventReceivers_def split_def Let_def and_then_def this_config_def on_config
      hasElementValueChanged_config)

lemma init_element:
  assumes "init val this h = Inr (this', h')"
  shows "element this' = element this"
proof -
  from assms obtain this2 where
    b: "bindEventReceivers val (fst (mergeConfiguration this h)) (snd (mergeConfiguration this h))
          = Inr this2" and t: "this' = this2"
    by (auto simp add: init_def split_def Let_def and_then_def split: sum.splits)
  have "element (fst (mergeConfiguration this h)) = element this"
    by (simp add: mergeConfiguration_unfold)
  with bindEventReceivers_element [OF b] t show ?thesis by simp
qed

lemma init_succeeds: "\<exists>this' h'. init val this h = Inr (this', h')"
proof -
  have "config (fst (mergeConfiguration this h)) = Some (next_addr h)"
    by (simp add: mergeConfiguration_unfold)
  from bindEventReceivers_succeeds [OF this]
  obtain this2 where
    "bindEventReceivers val (fst (mergeConfiguration this h)) (snd (mergeConfiguration this h))
       = Inr this2"
    by blast
  then show ?thesis
    by (simp add: init_def split_def Let_def and_then_def)
qed

text \<open>
  C1. The specification says that a validation-notification cycle (\<^verbatim>\<open>validationResult\<close>
  and the event construction it delegates to) never raises. In the code every such cycle
  raises: \<^verbatim>\<open>validationResult\<close> calls \<^verbatim>\<open>this.buildEvent\<close>, which no object defines
  (the builder is named \<^verbatim>\<open>buildEventObject\<close>), so the call is a \<^verbatim>\<open>TypeError\<close> for
  every status, message, context, configuration and page; and \<^verbatim>\<open>buildEventObject\<close>
  itself raises for all its inputs, because it reads the undeclared \<^verbatim>\<open>message\<close> and the
  members \<^verbatim>\<open>resultEventInfoLookup\<close> and \<^verbatim>\<open>resultInfoLookup\<close> that do not exist.
\<close>

theorem validationResult_raises:
  "validationResult g this h resultStatus customMessage typeContext =
     ([], Inl (TypeError ''this.buildEvent is not a function''))
   \<and> (\<exists>err. buildEventObject g this resultStatus customMessage typeContext = Inl err)"
  by (simp add: validationResult_TypeError buildEventObject_raises)

theorem validationResult_raises_witness:
  "validationResult Map.empty (Numeric (Some 0) None None)
       \<lparr>next_addr = 1, cells = (\<lambda>a. Map.empty)(0 := defaults)\<rparr> (JBool True) JUndefined JUndefined =
     ([], Inl (TypeError ''this.buildEvent is not a function''))
   \<and> buildEventObject Map.empty (Numeric (Some 0) None None) (JBool True) JUndefined JUndefined =
     Inl (ReferenceError ''message is not defined'')"
proof -
  have "buildEventObject Map.empty (Numeric (Some 0) None None) (JBool True) JUndefined JUndefined =
     Inl (ReferenceError ''message is not defined'')"
    by (simp add: buildEventObject_def and_then_def global_var_def Let_def)
  with validationResult_raises [of Map.empty "Numeric (Some 0) None None"
      "\<lparr>next_addr = 1, cells = (\<lambda>a. Map.empty)(0 := defaults)\<rparr>" "JBool True" JUndefined JUndefined]
  show ?thesis by simp
qed

text \<open>
  C2. The specification says that a configured callback for the outcome is invoked once, on
  the instance, with the event, and that its result is the result of the call. In the code
  a successful cycle with \<^verbatim>\<open>callbackValidEntry\<close> configured publishes nothing and ends
  in the \<^verbatim>\<open>TypeError\<close> of \<^verbatim>\<open>this.buildEvent\<close>: the callback is not invoked and
  the call has no result.
\<close>

theorem validationResult_callback_not_invoked:
  assumes "this_config this h ''callbackValidEntry'' = Inr (JFun f)"
  shows "validationResult g this h (JBool True) customMessage typeContext =
     ([], Inl (TypeError ''this.buildEvent is not a function''))"
  by (simp add: validationResult_TypeError)

theorem validationResult_callback_not_invoked_witness:
  "this_config ((Numeric (Some 0) None None)\<lparr>config := Some 1\<rparr>)
       \<lparr>next_addr = 2, cells = (\<lambda>a. Map.empty)(1 := [''callbackValidEntry'' \<mapsto> JFun ''onValid''])\<rparr>
       ''callbackValidEntry'' = Inr (JFun ''onValid'')
   \<and> validationResult Map.empty ((Numeric (Some 0) None None)\<lparr>config := Some 1\<rparr>)
       \<lparr>next_addr = 2, cells = (\<lambda>a. Map.empty)(1 := [''callbackValidEntry'' \<mapsto> JFun ''onValid''])\<rparr>
       (JBool True) JUndefined JUndefined =
     ([], Inl (TypeError ''this.buildEvent is not a function''))"
proof -
  have c: "this_config ((Numeric (Some 0) None None)\<lparr>config := Some 1\<rparr>)
       \<lparr>next_addr = 2, cells = (\<lambda>a. Map.empty)(1 := [''callbackValidEntry'' \<mapsto> JFun ''onValid''])\<rparr>
       ''callbackValidEntry'' = Inr (JFun ''onValid'')"
    by (simp add: this_config_def Numeric_def read_def get_prop_def)
  from c validationResult_callback_not_invoked [OF c] show ?thesis by simp
qed

text \<open>
  C3. The specification says that the handlers do nothing further when the value of the
  field equals the last recorded value. In the code, with the value unchanged (the check
  \<^verbatim>\<open>hasElementValueChanged\<close> would answer \<open>False\<close>), \<^verbatim>\<open>validateLive\<close> and
  \<^verbatim>\<open>validateLazy\<close> still go on to \<^verbatim>\<open>validationResult\<close>, since their guard compares
  the method with \<^verbatim>\<open>false\<close> instead of calling it, and end in its \<^verbatim>\<open>TypeError\<close>.
\<close>

theorem validate_handlers_do_not_short_circuit:
  assumes "elementLastValue this = Some v"
  shows "hasElementValueChanged (Some v) this = (False, this)
     \<and> validateLive g this h =
         validationResult g this h (JBool False) (JStr ''Character % not allowed.'') JUndefined
     \<and> validateLazy g this h = validationResult g this h (JBool True) JUndefined JUndefined
     \<and> validateLive g this h = ([], Inl (TypeError ''this.buildEvent is not a function''))
     \<and> validateLazy g this h = ([], Inl (TypeError ''this.buildEvent is not a function''))"
  using assms
  by (simp add: hasElementValueChanged_def validateLive_TypeError validateLazy_TypeError
      validationResult_TypeError)

theorem validate_handlers_do_not_short_circuit_witness:
  "elementLastValue ((Numeric (Some 0) None None)\<lparr>elementLastValue := Some ''5''\<rparr>) = Some ''5''
   \<and> hasElementValueChanged (Some ''5'') ((Numeric (Some 0) None None)\<lparr>elementLastValue := Some ''5''\<rparr>)
       = (False, (Numeric (Some 0) None None)\<lparr>elementLastValue := Some ''5''\<rparr>)
   \<and> validateLive Map.empty ((Numeric (Some 0) None None)\<lparr>elementLastValue := Some ''5''\<rparr>)
       \<lparr>next_addr = 1, cells = (\<lambda>a. Map.empty)\<rparr>
       = ([], Inl (TypeError ''this.buildEvent is not a function''))
   \<and> validateLazy Map.empty ((Numeric (Some 0) None None)\<lparr>elementLastValue := Some ''5''\<rparr>)
       \<lparr>next_addr = 1, cells = (\<lambda>a. Map.empty)\<rparr>
       = ([], Inl (TypeError ''this.buildEvent is not a function''))"
proof -
  have l: "elementLastValue ((Numeric (Some 0) None None)\<lparr>elementLastValue := Some ''5''\<rparr>)
      = Some ''5''"
    by simp
  from l validate_handlers_do_not_short_circuit [OF l, of Map.empty
      "\<lparr>next_addr = 1, cells = (\<lambda>a. Map.empty)\<rparr>"]
  show ?thesis by blast
qed

text \<open>
  C4. The specification says that \<^verbatim>\<open>validate()\<close> on an initialized instance runs the
  live check, then the lazy check, and returns the instance. In the code, for every instance
  that \<^verbatim>\<open>init\<close> has set up on an element, \<^verbatim>\<open>validate\<close> ends in the \<^verbatim>\<open>TypeError\<close>
  of the live check: the lazy check does not run and nothing is returned. (For an instance
  with no element it returns the instance, as lemma \<open>validate_unattached\<close> shows.)
\<close>

theorem validate_raises_on_initialized_instance:
  assumes "init val this h = Inr (this', h')" and "element this = Some el"
  shows "validate g this' h' = ([], Inl (TypeError ''this.buildEvent is not a function''))"
proof -
  from init_element [OF assms(1)] assms(2) have "element this' = Some el" by simp
  then show ?thesis by (rule validate_attached)
qed

theorem validate_raises_on_initialized_instance_witness:
  "\<exists>this' h'.
     init (Some ''12'') (Numeric (Some 0) None None)
       \<lparr>next_addr = 1, cells = (\<lambda>a. Map.empty)(0 := defaults)\<rparr> = Inr (this', h')
     \<and> element (Numeric (Some 0) None None) = Some 0
     \<and> validate Map.empty this' h' = ([], Inl (TypeError ''this.buildEvent is not a function''))"
proof -
  obtain this' h' where
    i: "init (Some ''12'') (Numeric (Some 0) None None)
          \<lparr>next_addr = 1, cells = (\<lambda>a. Map.empty)(0 := defaults)\<rparr> = Inr (this', h')"
    using init_succeeds by blast
  have e: "element (Numeric (Some 0) None None) = Some 0"
    by (simp add: Numeric_def)
  from i e validate_raises_on_initialized_instance [OF i e, of Map.empty]
  show ?thesis by blast
qed

text \<open>
  C9. For an instance bound to a field: of two calls of \<^verbatim>\<open>hasElementValueChanged\<close> in
  succession with the same value \<open>v\<close> of the field, the second returns \<open>False\<close>; and when
  the recorded last value is \<open>u\<close> and the field now holds a different \<open>v\<close>, the call
  returns \<open>True\<close> and records \<open>v\<close> as the last value.
\<close>

theorem hasElementValueChanged_detects_change:
  "fst (hasElementValueChanged (Some v) (snd (hasElementValueChanged (Some v) this))) = False
   \<and> (elementLastValue this = Some u \<and> v \<noteq> u \<longrightarrow>
        hasElementValueChanged (Some v) this = (True, this\<lparr>elementLastValue := Some v\<rparr>))"
  by (simp add: hasElementValueChanged_def)

theorem hasElementValueChanged_detects_change_witness:
  "fst (hasElementValueChanged (Some ''12'')
          (snd (hasElementValueChanged (Some ''12'') (Numeric (Some 0) None None)))) = False
   \<and> elementLastValue ((Numeric (Some 0) None None)\<lparr>elementLastValue := Some ''1''\<rparr>) = Some ''1''
   \<and> ''12'' \<noteq> ''1''
   \<and> hasElementValueChanged (Some ''12'')
        ((Numeric (Some 0) None None)\<lparr>elementLastValue := Some ''1''\<rparr>)
      = (True, (Numeric (Some 0) None None)\<lparr>elementLastValue := Some ''12''\<rparr>)"
  using hasElementValueChanged_detects_change [of "''12''" "Numeric (Some 0) None None"]
    hasElementValueChanged_detects_change
      [of "''12''" "(Numeric (Some 0) None None)\<lparr>elementLastValue := Some ''1''\<rparr>" "''1''"]
  by simp


section \<open>Numbers\<close>

subsection \<open>Normal forms and rounding\<close>

lemma normalise_Fin: "\<exists>m' e'. normalise m e = Fin m' e'"
proof (induction m e rule: normalise.induct)
  case (1 m e)
  show ?case
  proof (cases "m \<noteq> 0 \<and> m mod 2 = 0")
    case True
    with 1 show ?thesis by (subst normalise.simps) simp
  next
    case False
    then show ?thesis by (subst normalise.simps) auto
  qed
qed

lemma normalise_is_integer:
  "is_integer (normalise m e) = (0 \<le> e \<or> 2 ^ nat (- e) dvd m)"
proof (induction m e rule: normalise.induct)
  case (1 m e)
  show ?case
  proof (cases "m = 0")
    case True
    then show ?thesis by (subst normalise.simps) (simp add: is_integer_def)
  next
    case nz: False
    show ?thesis
    proof (cases "m mod 2 = 0")
      case True
      then obtain q where q: "m = 2 * q" by auto
      have ih: "is_integer (normalise (m div 2) (e + 1)) =
          (0 \<le> e + 1 \<or> 2 ^ nat (- (e + 1)) dvd m div 2)"
        using 1 nz True by simp
      have "(0 \<le> e + 1 \<or> (2::int) ^ nat (- (e + 1)) dvd m div 2) = (0 \<le> e \<or> 2 ^ nat (- e) dvd m)"
      proof (cases "0 \<le> e")
        case True
        then show ?thesis by simp
      next
        case False
        then have "nat (- e) = Suc (nat (- (e + 1)))" by simp
        then show ?thesis using q False by (cases "e = - 1") auto
      qed
      with ih nz True show ?thesis by (subst normalise.simps) simp
    next
      case False
      with nz show ?thesis by (subst normalise.simps) (simp add: is_integer_def)
    qed
  qed
qed

lemma normalise_shift: "m \<noteq> 0 \<Longrightarrow> normalise (m * 2 ^ k) (e - int k) = normalise m e"
proof (induction k arbitrary: e)
  case 0
  then show ?case by simp
next
  case (Suc k)
  have "normalise (m * 2 ^ Suc k) (e - int (Suc k)) =
      normalise (m * 2 ^ Suc k div 2) (e - int (Suc k) + 1)"
    using Suc.prems by (subst normalise.simps) simp
  also have "\<dots> = normalise (m * 2 ^ k) (e - int k)"
    by (simp add: algebra_simps)
  also have "\<dots> = normalise m e" using Suc by simp
  finally show ?case .
qed

lemma round_half_even_1: "round_half_even n (Suc 0) = n"
  by (simp add: round_half_even_def)

lemma round_double_integer:
  "round_double neg a 1 = PosInf \<or> round_double neg a 1 = NegInf \<or> is_integer (round_double neg a 1)"
proof -
  define d where "d = int (bitlen a) - int (bitlen 1)"
  define p where "p = (if (if 0 \<le> d then 1 * 2 ^ nat d \<le> a else 1 \<le> a * 2 ^ nat (- d))
               then d else d - 1)"
  define u where "u = max (p - 52) (- 1074)"
  define M where "M = (if 0 \<le> u then round_half_even a (1 * 2 ^ nat u)
               else round_half_even (a * 2 ^ nat (- u)) 1)"
  define sg :: int where "sg = (if neg then - 1 else 1)"
  have rd: "round_double neg a 1 =
      (if M = 0 then (if neg then NegZero else Fin 0 0)
       else if 971 < u \<or> (u = 971 \<and> M = 2 ^ 53) then (if neg then NegInf else PosInf)
       else normalise (sg * int M) u)"
    unfolding round_double_def Let_def d_def p_def u_def M_def sg_def ..
  have dv: "0 \<le> u \<or> 2 ^ nat (- u) dvd sg * int M"
  proof (cases "0 \<le> u")
    case True
    then show ?thesis by simp
  next
    case False
    then have "M = a * 2 ^ nat (- u)" by (simp add: M_def round_half_even_1)
    then show ?thesis by simp
  qed
  show ?thesis
  proof (cases "M = 0")
    case True
    then show ?thesis unfolding rd by (simp add: is_integer_def)
  next
    case nz: False
    show ?thesis
    proof (cases "971 < u \<or> (u = 971 \<and> M = 2 ^ 53)")
      case True
      with nz show ?thesis unfolding rd by simp
    next
      case False
      with nz have "round_double neg a 1 = normalise (sg * int M) u" unfolding rd by auto
      with dv show ?thesis by (simp only: normalise_is_integer) simp
    qed
  qed
qed

lemma parseInt10_range:
  "parseInt10 v = NaN \<or> parseInt10 v = PosInf \<or> parseInt10 v = NegInf \<or> is_integer (parseInt10 v)"
  using round_double_integer
  by (auto simp add: parseInt10_def split_def Let_def)

lemma round_trip_integer:
  assumes "num_strict_eq (to_number v) (parseInt10 v)"
  shows "is_integer (to_number v) \<or> to_number v = PosInf \<or> to_number v = NegInf"
  using assms parseInt10_range [of v]
  by (auto simp add: num_strict_eq_def is_zero_def is_integer_def)

lemma bitlen_bounds: "0 < n \<Longrightarrow> 2 ^ (bitlen n - 1) \<le> n \<and> n < 2 ^ bitlen n"
proof (induction n rule: bitlen.induct)
  case (1 n)
  have bl: "bitlen n = Suc (bitlen (n div 2))"
    using 1(2) by (subst bitlen.simps) simp
  show ?case
  proof (cases "n div 2 = 0")
    case True
    with 1(2) have n1: "n = 1" by (simp add: div_eq_0_iff)
    have "bitlen (n div 2) = 0" using True by (subst bitlen.simps) simp
    with bl n1 show ?thesis by simp
  next
    case False
    with 1 have ih: "2 ^ (bitlen (n div 2) - 1) \<le> n div 2 \<and> n div 2 < 2 ^ bitlen (n div 2)"
      by simp
    have pos: "0 < bitlen (n div 2)" using False by (subst bitlen.simps) simp
    define X :: nat where "X = 2 ^ (bitlen (n div 2) - 1)"
    have X2: "2 ^ bitlen (n div 2) = 2 * X"
      using pos unfolding X_def by (cases "bitlen (n div 2)") simp_all
    have d1: "2 * (n div 2) \<le> n" and d2: "n < 2 * (n div 2) + 2" by auto
    have "2 ^ (bitlen n - 1) = 2 * X" "2 ^ bitlen n = 2 * (2 * X)"
      unfolding bl using X2 by simp_all
    moreover have "X \<le> n div 2" "n div 2 < 2 * X" using ih X2 unfolding X_def by simp_all
    ultimately show ?thesis using d1 d2 by presburger
  qed
qed

lemma bitlen_1: "bitlen (Suc 0) = Suc 0"
  by (subst bitlen.simps, subst bitlen.simps) simp

lemma round_half_even_ge: "n div d \<le> round_half_even n d"
  by (simp add: round_half_even_def Let_def)

lemma round_half_even_0: "0 < d \<Longrightarrow> round_half_even 0 d = 0"
  by (simp add: round_half_even_def)

lemma round_double_nat:
  assumes "0 < a"
  shows "round_double neg a 1 =
     (if (if 0 \<le> int (bitlen a) - 53 then round_half_even a (2 ^ nat (int (bitlen a) - 53))
          else a * 2 ^ nat (53 - int (bitlen a))) = 0
      then (if neg then NegZero else Fin 0 0)
      else if 971 < int (bitlen a) - 53
          \<or> (int (bitlen a) - 53 = 971
              \<and> (if 0 \<le> int (bitlen a) - 53 then round_half_even a (2 ^ nat (int (bitlen a) - 53))
                  else a * 2 ^ nat (53 - int (bitlen a))) = 2 ^ 53)
        then (if neg then NegInf else PosInf)
      else normalise ((if neg then - 1 else 1) *
          int (if 0 \<le> int (bitlen a) - 53 then round_half_even a (2 ^ nat (int (bitlen a) - 53))
               else a * 2 ^ nat (53 - int (bitlen a)))) (int (bitlen a) - 53))"
proof -
  define d where "d = int (bitlen a) - int (bitlen 1)"
  define p where "p = (if (if 0 \<le> d then 1 * 2 ^ nat d \<le> a else 1 \<le> a * 2 ^ nat (- d))
               then d else d - 1)"
  define u where "u = max (p - 52) (- 1074)"
  define M where "M = (if 0 \<le> u then round_half_even a (1 * 2 ^ nat u)
               else round_half_even (a * 2 ^ nat (- u)) 1)"
  have rd: "round_double neg a 1 =
      (if M = 0 then (if neg then NegZero else Fin 0 0)
       else if 971 < u \<or> (u = 971 \<and> M = 2 ^ 53) then (if neg then NegInf else PosInf)
       else normalise ((if neg then - 1 else 1) * int M) u)"
    unfolding round_double_def Let_def d_def p_def u_def M_def ..
  from bitlen_bounds [OF assms] have bb: "2 ^ (bitlen a - 1) \<le> a" "a < 2 ^ bitlen a" by simp_all
  have bpos: "0 < bitlen a" using assms by (subst bitlen.simps) simp
  have d: "d = int (bitlen a) - 1" by (simp add: d_def bitlen_1)
  have nd: "nat d = bitlen a - 1" using bpos by (simp add: d)
  have c: "2 ^ nat d \<le> a" using bb(1) unfolding nd .
  have d0: "0 \<le> d" using bpos by (simp add: d)
  have "p = d" using c d0 by (simp add: p_def)
  then have u: "u = int (bitlen a) - 53" using bpos by (simp add: u_def d)
  have M: "M = (if 0 \<le> int (bitlen a) - 53 then round_half_even a (2 ^ nat (int (bitlen a) - 53))
          else a * 2 ^ nat (53 - int (bitlen a)))"
    by (simp add: M_def u round_half_even_1)
  show ?thesis unfolding rd u M ..
qed

lemma round_double_exact:
  assumes "n < 2 ^ 53"
  shows "round_double False n 1 = normalise (int n) 0"
proof (cases "n = 0")
  case True
  have "round_double False 0 1 = Fin 0 0"
    by (simp add: round_double_def Let_def round_half_even_0 round_half_even_1)
  with True show ?thesis by (subst normalise.simps) simp
next
  case False
  then have pos: "0 < n" by simp
  from bitlen_bounds [OF pos] have bb: "2 ^ (bitlen n - 1) \<le> n" by simp
  have "bitlen n - 1 < 53"
  proof (rule ccontr)
    assume "\<not> bitlen n - 1 < 53"
    then have "(2::nat) ^ 53 \<le> 2 ^ (bitlen n - 1)" by (intro power_increasing) simp_all
    with bb assms show False by simp
  qed
  then have le: "int (bitlen n) - 53 \<le> 0" by simp
  define k where "k = nat (53 - int (bitlen n))"
  have u: "int (bitlen n) - 53 = 0 - int k" using le by (simp add: k_def)
  have M: "(if 0 \<le> int (bitlen n) - 53 then round_half_even n (2 ^ nat (int (bitlen n) - 53))
          else n * 2 ^ nat (53 - int (bitlen n))) = n * 2 ^ k"
  proof (cases "0 \<le> int (bitlen n) - 53")
    case True
    with le have "int (bitlen n) - 53 = 0" by simp
    then show ?thesis by (simp add: k_def round_half_even_1)
  next
    case False
    then show ?thesis by (simp add: k_def)
  qed
  have "round_double False n 1 = normalise (int (n * 2 ^ k)) (0 - int k)"
    unfolding round_double_nat [OF pos] M using pos le u by simp
  also have "\<dots> = normalise (int n * 2 ^ k) (0 - int k)" by simp
  also have "\<dots> = normalise (int n) 0" using pos by (intro normalise_shift) simp
  finally show ?thesis .
qed

lemma round_double_overflow:
  assumes "2 ^ 1024 \<le> a"
  shows "round_double False a 1 = PosInf"
proof -
  have pos: "0 < a" using assms by (cases "a = 0") simp_all
  from bitlen_bounds [OF pos] have bb: "2 ^ (bitlen a - 1) \<le> a" "a < 2 ^ bitlen a" by simp_all
  have "1024 < bitlen a"
  proof (rule ccontr)
    assume "\<not> 1024 < bitlen a"
    then have "(2::nat) ^ bitlen a \<le> 2 ^ 1024" by (intro power_increasing) simp_all
    with bb(2) assms show False by simp
  qed
  then have u: "971 < int (bitlen a) - 53" by simp
  have "(2::nat) ^ nat (int (bitlen a) - 53) \<le> 2 ^ (bitlen a - 1)"
    by (intro power_increasing) simp_all
  from this bb(1) have "2 ^ nat (int (bitlen a) - 53) \<le> a" by (rule order_trans)
  then have "1 \<le> a div 2 ^ nat (int (bitlen a) - 53)"
    by (simp add: Suc_le_eq div_greater_zero_iff)
  with round_half_even_ge [of a "2 ^ nat (int (bitlen a) - 53)"]
  have "round_half_even a (2 ^ nat (int (bitlen a) - 53)) \<noteq> 0" by simp
  then show ?thesis unfolding round_double_nat [OF pos] using u by simp
qed

subsection \<open>Decimal digits\<close>

lemma digit_char:
  assumes "d < 10"
  shows "is_digit (''0123456789'' ! d)" and "digit_index ''0123456789'' (''0123456789'' ! d) = d"
proof -
  from assms have "d = 0 \<or> d = 1 \<or> d = 2 \<or> d = 3 \<or> d = 4 \<or> d = 5 \<or> d = 6 \<or> d = 7
      \<or> d = 8 \<or> d = 9"
    by arith
  then show "is_digit (''0123456789'' ! d)"
    and "digit_index ''0123456789'' (''0123456789'' ! d) = d"
    by (auto simp add: is_digit_def digit_index_def)
qed

lemma is_digit_not_ws: "is_digit c \<Longrightarrow> \<not> is_ws c"
  by (auto simp add: is_digit_def is_ws_def)

lemma is_digit_not_sign: "is_digit c \<Longrightarrow> c \<noteq> CHR ''-'' \<and> c \<noteq> CHR ''+''"
  by (auto simp add: is_digit_def)

lemma decimal_value_append:
  "decimal_value (xs @ ys) = foldl (\<lambda>a c. 10 * a + digit_index ''0123456789'' c) (decimal_value xs) ys"
  by (simp add: decimal_value_def)

lemma decimal_value_snoc:
  "decimal_value (xs @ [c]) = 10 * decimal_value xs + digit_index ''0123456789'' c"
  by (simp add: decimal_value_def)

lemma foldl_zeros:
  "foldl (\<lambda>a c. 10 * a + digit_index ''0123456789'' c) a (replicate j (CHR ''0'')) = a * 10 ^ j"
  by (induction j arbitrary: a) (simp_all add: digit_index_def)

lemma decimal_value_zeros:
  "decimal_value (xs @ replicate j (CHR ''0'')) = decimal_value xs * 10 ^ j"
  by (simp add: decimal_value_append foldl_zeros)

lemma digits_of_digits: "list_all is_digit (digits_of n) \<and> digits_of n \<noteq> []"
proof (induction n rule: digits_of.induct)
  case (1 n)
  show ?case
  proof (cases "n < 10")
    case True
    then show ?thesis by (subst (1 2) digits_of.simps) (simp add: digit_char)
  next
    case False
    with 1 have "list_all is_digit (digits_of (n div 10))" by simp
    moreover have "is_digit (''0123456789'' ! (n mod 10))" by (rule digit_char) simp
    ultimately show ?thesis using False by (subst (1 2) digits_of.simps) simp
  qed
qed

lemma decimal_value_digits_of: "decimal_value (digits_of n) = n"
proof (induction n rule: digits_of.induct)
  case (1 n)
  show ?case
  proof (cases "n < 10")
    case True
    then show ?thesis
      by (subst digits_of.simps) (simp add: decimal_value_def digit_char)
  next
    case False
    with 1 have ih: "decimal_value (digits_of (n div 10)) = n div 10" by simp
    have "digit_index ''0123456789'' (''0123456789'' ! (n mod 10)) = n mod 10"
      by (rule digit_char) simp
    with ih False show ?thesis
      by (subst digits_of.simps) (simp add: decimal_value_snoc)
  qed
qed

lemma length_digits_of: "0 < j \<Longrightarrow> n < 10 ^ j \<Longrightarrow> length (digits_of n) \<le> j"
proof (induction j arbitrary: n)
  case 0
  then show ?case by simp
next
  case (Suc j)
  show ?case
  proof (cases "n < 10")
    case True
    then show ?thesis by (subst digits_of.simps) simp
  next
    case False
    with Suc.prems have j: "0 < j" by (cases j) simp_all
    from Suc.prems have "n div 10 < 10 ^ j" by (simp add: less_mult_imp_div_less mult.commute)
    with Suc.IH j have "length (digits_of (n div 10)) \<le> j" by simp
    with False show ?thesis by (subst digits_of.simps) simp
  qed
qed

subsection \<open>Strings of digits\<close>

lemma digit_string_head:
  assumes "s \<noteq> []" "list_all is_digit s"
  shows "is_digit (hd s)" "is_digit (last s)"
  using assms hd_in_set [of s] last_in_set [of s] by (simp_all add: list_all_iff)

lemma digit_string_trim:
  assumes "s \<noteq> []" "list_all is_digit s"
  shows "dropWhile is_ws s = s" "trim s = s"
proof -
  from digit_string_head [OF assms] have h: "\<not> is_ws (hd s)" and l: "\<not> is_ws (last s)"
    by (simp_all add: is_digit_not_ws)
  from h assms(1) show a: "dropWhile is_ws s = s" by (cases s) simp_all
  have "hd (rev s) = last s" by (simp add: hd_rev)
  with l have "\<not> is_ws (hd (rev s))" by simp
  then have "dropWhile is_ws (rev s) = rev s"
    by (cases "rev s") simp_all
  then show "trim s = s" by (simp add: trim_def a)
qed

lemma digit_string_sign:
  assumes "s \<noteq> []" "list_all is_digit s"
  shows "split_sign s = (False, s)"
  using assms is_digit_not_sign [of "hd s"] digit_string_head(1) [OF assms]
  by (cases s) (simp_all add: split_sign_def)

lemma digit_string_take:
  assumes "list_all is_digit s"
  shows "takeWhile is_digit s = s" "dropWhile is_digit s = []"
  using assms by (simp_all add: list_all_iff takeWhile_eq_all_conv)

lemma parseInt10_digit_string:
  assumes "s \<noteq> []" "list_all is_digit s"
  shows "parseInt10 (JStr s) = round_double False (decimal_value s) 1"
  using assms
  by (simp add: parseInt10_def to_string_def digit_string_trim(1) [OF assms]
      digit_string_sign [OF assms] digit_string_take [OF assms(2)])

lemma digit_string_no_prefix:
  assumes "list_all is_digit s"
  shows "take 2 s \<noteq> [CHR ''0'', c] \<or> is_digit c"
  using assms by (cases s; cases "tl s") auto

lemma to_number_digit_string:
  assumes "s \<noteq> []" "list_all is_digit s"
  shows "to_number (JStr s) = round_double False (decimal_value s) 1"
proof -
  have np: "take 2 s \<noteq> ''0x''" "take 2 s \<noteq> ''0X''" "take 2 s \<noteq> ''0o''" "take 2 s \<noteq> ''0O''"
    "take 2 s \<noteq> ''0b''" "take 2 s \<noteq> ''0B''"
    using digit_string_no_prefix [OF assms(2), of "CHR ''x''"]
      digit_string_no_prefix [OF assms(2), of "CHR ''X''"]
      digit_string_no_prefix [OF assms(2), of "CHR ''o''"]
      digit_string_no_prefix [OF assms(2), of "CHR ''O''"]
      digit_string_no_prefix [OF assms(2), of "CHR ''b''"]
      digit_string_no_prefix [OF assms(2), of "CHR ''B''"]
    by (auto simp add: is_digit_def)
  have ni: "s \<noteq> ''Infinity''"
    using digit_string_head(1) [OF assms] by (auto simp add: is_digit_def)
  have ud: "unsigned_decimal s = Some (decimal_value s, 0)"
    using assms(1)
    by (simp add: unsigned_decimal_def digit_string_take [OF assms(2)] exponent_part_def)
  show ?thesis
    using assms(1) np ni
    by (simp add: to_number_def string_to_number_def digit_string_trim(2) [OF assms]
        digit_string_sign [OF assms] ud decimal_to_double_def)
qed

subsection \<open>Printing and reading back an integer\<close>

lemma normalise_value:
  "0 < m0 \<Longrightarrow> \<exists>m e. normalise m0 e0 = Fin m e \<and> 0 < m \<and> e0 \<le> e \<and> m * 2 ^ nat (e - e0) = m0"
proof (induction m0 e0 rule: normalise.induct)
  case (1 m e)
  show ?case
  proof (cases "m mod 2 = 0")
    case True
    from 1(2) True have pos: "0 < m div 2" by presburger
    from 1(1) [OF _ True pos] 1(2) obtain m' e' where
      n: "normalise (m div 2) (e + 1) = Fin m' e'" and p: "0 < m'" and le: "e + 1 \<le> e'"
      and v: "m' * 2 ^ nat (e' - (e + 1)) = m div 2"
      by auto
    from le have "nat (e' - e) = Suc (nat (e' - (e + 1)))" by simp
    moreover from True have "m = 2 * (m div 2)" by presburger
    ultimately have "m' * 2 ^ nat (e' - e) = m" using v by simp
    with n p le 1(2) True show ?thesis by (subst normalise.simps) simp
  next
    case False
    with 1(2) show ?thesis by (subst normalise.simps) simp
  qed
qed

lemma candidate_parts:
  "fst (snd (candidate a b k)) = k"
  "snd (snd (candidate a b k)) = magnitude a b \<or> snd (snd (candidate a b k)) = magnitude a b + 1"
  by (simp_all add: candidate_def Let_def)

lemma candidate_full_length:
  assumes "0 < L" "magnitude a 1 = int L"
  shows "denotes a 1 (candidate a 1 L)"
proof -
  have cand: "candidate a 1 L =
      (if a = 10 ^ L then (10 ^ (L - 1), L, int L + 1) else (a, L, int L))"
    unfolding candidate_def Let_def assms(2) by (simp add: round_half_even_1)
  show ?thesis
  proof (cases "a = 10 ^ L")
    case True
    from assms(1) have "(10::nat) ^ (L - 1) * 10 = 10 ^ L" by (cases L) simp_all
    with True show ?thesis
      unfolding denotes_def cand by (simp add: decimal_to_double_def)
  next
    case False
    then show ?thesis
      unfolding denotes_def cand by (simp add: decimal_to_double_def)
  qed
qed

lemma shortest_digits_integer:
  assumes "0 < L" "L < 18" "magnitude a 1 = int L"
  shows "\<exists>s k n. shortest_digits a 1 = (s, k, n) \<and> int k \<le> n \<and> n \<le> int L + 1
     \<and> decimal_to_double False s (n - int k) = round_double False a 1"
proof -
  let ?xs = "map (candidate a 1) [1..<18]"
  have len: "length ?xs = 17" by simp
  have nth: "?xs ! i = candidate a 1 (Suc i)" if "i < 17" for i
    using that by (simp del: upt_Suc)
  have inl: "L - 1 < 17" using assms by simp
  have PL: "denotes a 1 (?xs ! (L - 1))"
    using candidate_full_length [OF assms(1,3)] assms(1) nth [OF inl] by simp
  then have "List.find (denotes a 1) ?xs \<noteq> None"
    using inl len by (auto simp add: find_None_iff in_set_conv_nth simp del: map_map upt_Suc)
  then obtain c where f: "List.find (denotes a 1) ?xs = Some c" by blast
  then obtain i where i: "i < 17" and Pc: "denotes a 1 c" and c: "c = ?xs ! i"
    and first: "\<forall>j<i. \<not> denotes a 1 (?xs ! j)"
    unfolding find_Some_iff len by blast
  have "i \<le> L - 1"
  proof (rule ccontr)
    assume "\<not> i \<le> L - 1"
    then have "L - 1 < i" by simp
    with first PL show False by blast
  qed
  then have kL: "Suc i \<le> L" using assms(1) by simp
  have cc: "c = candidate a 1 (Suc i)" using c nth [OF i] by simp
  obtain s k n where skn: "c = (s, k, n)" by (cases c) auto
  from cc skn have eq: "candidate a 1 (Suc i) = (s, k, n)" by simp
  have k: "k = Suc i" and n: "n = int L \<or> n = int L + 1"
    using candidate_parts [of a 1 "Suc i"] unfolding eq assms(3) by simp_all
  from Pc skn have d: "decimal_to_double False s (n - int k) = round_double False a 1"
    by (simp add: denotes_def)
  have "shortest_digits a 1 = (s, k, n)"
    unfolding shortest_digits_def using f skn by (simp del: upt_Suc)
  with k n kL d show ?thesis by auto
qed

lemma parseInt10_of_integer:
  assumes "N < 2 ^ 53"
  shows "parseInt10 (JNum (normalise (int N) 0)) = normalise (int N) 0"
proof (cases "N = 0")
  case True
  have z: "normalise 0 0 = Fin 0 0" by (subst normalise.simps) simp
  have "parseInt10 (JNum (Fin 0 0)) = round_double False 0 1"
    by (simp add: parseInt10_def to_string_def num_to_string_def is_ws_def split_sign_def
        is_digit_def decimal_value_def digit_index_def)
  also have "\<dots> = normalise (int 0) 0" by (rule round_double_exact) simp
  finally show ?thesis using True z by simp
next
  case False
  then have pos: "0 < N" by simp
  then have "0 < int N" by simp
  from normalise_value [OF this, of 0] obtain m e where
    x: "normalise (int N) 0 = Fin m e" and mp: "0 < m" and e0: "0 \<le> e" and v: "m * 2 ^ nat e = int N"
    by auto
  have a: "nat \<bar>m\<bar> * 2 ^ nat e = N"
  proof -
    have "int (nat \<bar>m\<bar> * 2 ^ nat e) = m * 2 ^ nat e" using mp by simp
    with v show ?thesis by (metis nat_int)
  qed
  define L where "L = length (digits_of N)"
  have Lpos: "0 < L" using digits_of_digits [of N] by (simp add: L_def)
  have "N < 10 ^ 16" using assms by simp
  then have "L \<le> 16" unfolding L_def by (intro length_digits_of) simp_all
  then have L18: "L < 18" by simp
  have mag: "magnitude N 1 = int L" using pos by (simp add: magnitude_def L_def)
  from shortest_digits_integer [OF Lpos L18 mag] obtain s k n where
    sd: "shortest_digits N 1 = (s, k, n)" and kn: "int k \<le> n" and nL: "n \<le> int L + 1"
    and d: "decimal_to_double False s (n - int k) = round_double False N 1"
    by blast
  define body where "body = digits_of s @ replicate (nat (n - int k)) (CHR ''0'')"
  have n21: "n \<le> 21" using nL \<open>L \<le> 16\<close> by simp
  have a': "nat m * 2 ^ nat e = N" using a mp by simp
  have sd': "shortest_digits N (Suc 0) = (s, k, n)" using sd by simp
  have str: "num_to_string (Fin m e) = body"
    using mp e0 kn n21 by (simp add: num_to_string_def a' sd' body_def)
  have zero: "is_digit (CHR ''0'')" by (simp add: is_digit_def)
  have dig: "list_all is_digit body" "body \<noteq> []"
    using digits_of_digits [of s] zero by (auto simp add: body_def list_all_iff)
  have val: "decimal_value body = s * 10 ^ nat (n - int k)"
    by (simp add: body_def decimal_value_zeros decimal_value_digits_of)
  have "parseInt10 (JNum (Fin m e)) = parseInt10 (JStr body)"
    by (simp add: parseInt10_def to_string_def str)
  also have "\<dots> = round_double False (s * 10 ^ nat (n - int k)) 1"
    by (simp add: parseInt10_digit_string [OF dig(2,1)] val)
  also have "\<dots> = decimal_to_double False s (n - int k)"
    using kn by (simp add: decimal_to_double_def)
  also have "\<dots> = round_double False N 1" by (rule d)
  also have "\<dots> = normalise (int N) 0" by (rule round_double_exact [OF assms])
  finally show ?thesis by (simp add: x)
qed

section \<open>Configuration\<close>

lemma merged_supplied:
  assumes "defaults_addr < next_addr h" "allocated h (options this)" "allocated h (metadata this)"
  shows "read (snd (merge_sources this h)) (next_addr h) k =
     (if supplied h this k \<noteq> JUndefined then supplied h this k
      else get_prop (cells h defaults_addr) k)"
  by (simp add: merge_sources_read [OF assms] override_defined_def supplied_def)

lemma defaults_values:
  "get_prop defaults ''negative'' = JBool True"
  "get_prop defaults ''decimal'' = JBool True"
  "get_prop defaults ''decimalPlaces'' = JUndefined"
  "get_prop defaults ''delegateRemoval'' = JBool True"
  "get_prop defaults ''delegateRealtime'' = JBool True"
  "get_prop defaults ''callbackInvalidEntry'' = JUndefined"
  "get_prop defaults ''callbackValidEntry'' = JUndefined"
  by (simp_all add: get_prop_def defaults_def)

lemma to_number_3: "to_number (JStr ''3'') = Fin 3 0"
proof -
  have "to_number (JStr ''3'') = round_double False (decimal_value ''3'') 1"
    by (rule to_number_digit_string) (simp_all add: is_digit_def)
  also have "decimal_value ''3'' = 3" by (simp add: decimal_value_def digit_index_def)
  also have "round_double False 3 1 = normalise (int 3) 0" by (rule round_double_exact) simp
  also have "\<dots> = Fin 3 0" by (subst normalise.simps) simp
  finally show ?thesis .
qed

lemma parseInt10_3: "parseInt10 (JStr ''3'') = Fin 3 0"
proof -
  have "parseInt10 (JStr ''3'') = round_double False (decimal_value ''3'') 1"
    by (rule parseInt10_digit_string) (simp_all add: is_digit_def)
  also have "\<dots> = to_number (JStr ''3'')"
    by (rule to_number_digit_string [symmetric]) (simp_all add: is_digit_def)
  finally show ?thesis by (simp add: to_number_3)
qed

lemma to_number_abc: "to_number (JStr ''abc'') = NaN"
  by (simp add: to_number_def string_to_number_def trim_def is_ws_def split_sign_def
      unsigned_decimal_def is_digit_def exponent_part_def)

lemma parseInt10_abc: "parseInt10 (JStr ''abc'') = NaN"
  by (simp add: parseInt10_def to_string_def is_ws_def split_sign_def is_digit_def)

lemma to_number_rounds: "to_number (JStr ''4.0000000000000000001'') = Fin 1 2"
  by code_simp

lemma parseInt10_rounds: "parseInt10 (JStr ''4.0000000000000000001'') = Fin 1 2"
  by code_simp

lemma to_number_fraction: "to_number (JStr ''3.5'') = Fin 7 (- 1)"
  by code_simp

lemma parseInt10_fraction: "parseInt10 (JStr ''3.5'') = Fin 3 0"
  by code_simp

lemma parseInt10_no_digits:
  "parseInt10 (JBool b) = NaN" "parseInt10 JNull = NaN" "parseInt10 (JFun f) = NaN"
  "parseInt10 (JNum NaN) = NaN" "parseInt10 (JNum PosInf) = NaN" "parseInt10 (JNum NegInf) = NaN"
  by (simp_all add: parseInt10_def to_string_def num_to_string_def is_ws_def split_sign_def
      is_digit_def)

subsection \<open>The types of the resolved fields\<close>

lemma typeof_boolean: "typeof v = ''boolean'' \<Longrightarrow> \<exists>b. v = JBool b"
  by (cases v) (simp_all add: typeof_def)

lemma typeof_function: "typeof v = ''function'' \<Longrightarrow> \<exists>f. v = JFun f"
  by (cases v) (simp_all add: typeof_def)

lemma resolved_booleans:
  assumes "defaults_addr < next_addr h" and "cells h defaults_addr = defaults"
  shows "\<exists>b. read (snd (mergeConfiguration this h)) (next_addr h) ''negative'' = JBool b"
    and "\<exists>b. read (snd (mergeConfiguration this h)) (next_addr h) ''delegateRemoval'' = JBool b"
    and "\<exists>b. read (snd (mergeConfiguration this h)) (next_addr h) ''delegateRealtime'' = JBool b"
  using typeof_boolean
  by (auto simp add: resolved_negative [OF assms(1)] resolved_delegateRemoval [OF assms(1)]
      resolved_delegateRealtime [OF assms(1)] read_def [of h defaults_addr] assms(2)
      defaults_values)

lemma resolved_decimal_character:
  assumes "defaults_addr < next_addr h" and "cells h defaults_addr = defaults"
  shows "\<exists>c. read (snd (mergeConfiguration this h)) (next_addr h) ''decimal'' = JStr [c]"
proof -
  have dflt: "read h defaults_addr ''decimal'' = JBool True"
    by (simp add: read_def assms(2) defaults_values)
  show ?thesis
  proof (cases "read (snd (merge_sources this h)) (next_addr h) ''decimal''")
    case (JStr s)
    show ?thesis
    proof (cases "length s = 1")
      case True
      then obtain c where "s = [c]" by (cases s) auto
      with JStr show ?thesis
        by (simp add: resolved_decimal [OF assms(1)] dflt Let_def strict_eq_def typeof_def)
    next
      case False
      with JStr show ?thesis
        by (simp add: resolved_decimal [OF assms(1)] dflt Let_def strict_eq_def typeof_def)
    qed
  qed (simp_all add: resolved_decimal [OF assms(1)] dflt Let_def strict_eq_def typeof_def)
qed

lemma resolved_decimalPlaces_cases:
  assumes "defaults_addr < next_addr h" and "cells h defaults_addr = defaults"
  shows "read (snd (mergeConfiguration this h)) (next_addr h) ''decimalPlaces'' = JUndefined
     \<or> read (snd (mergeConfiguration this h)) (next_addr h) ''decimalPlaces'' = JNum NaN
     \<or> read (snd (mergeConfiguration this h)) (next_addr h) ''decimalPlaces'' = JNum PosInf
     \<or> read (snd (mergeConfiguration this h)) (next_addr h) ''decimalPlaces'' = JNum NegInf
     \<or> (\<exists>n. read (snd (mergeConfiguration this h)) (next_addr h) ''decimalPlaces'' = JNum n
            \<and> is_integer n)"
proof -
  define v where "v = read (snd (merge_sources this h)) (next_addr h) ''decimalPlaces''"
  have dflt: "read h defaults_addr ''decimalPlaces'' = JUndefined"
    by (simp add: read_def assms(2) defaults_values)
  have r: "read (snd (mergeConfiguration this h)) (next_addr h) ''decimalPlaces'' =
      (if \<not> strict_eq v JUndefined \<and> \<not> num_strict_eq (to_number v) (parseInt10 v)
       then JUndefined else JNum (to_number v))"
    by (simp add: resolved_decimalPlaces [OF assms(1)] dflt v_def Let_def)
  show ?thesis
  proof (cases "num_strict_eq (to_number v) (parseInt10 v)")
    case True
    with round_trip_integer [OF True] show ?thesis by (auto simp add: r)
  next
    case False
    show ?thesis
    proof (cases "strict_eq v JUndefined")
      case True
      then have "v = JUndefined" by (cases v) (simp_all add: strict_eq_def)
      then show ?thesis by (simp add: r strict_eq_def to_number_def)
    next
      case nd: False
      with False show ?thesis by (simp add: r)
    qed
  qed
qed

lemma resolved_callbacks:
  shows "read (snd (mergeConfiguration this h)) (next_addr h) ''callbackInvalidEntry'' = JUndefined
     \<or> (\<exists>f. read (snd (mergeConfiguration this h)) (next_addr h) ''callbackInvalidEntry'' = JFun f)"
    and "read (snd (mergeConfiguration this h)) (next_addr h) ''callbackValidEntry'' = JUndefined
     \<or> (\<exists>f. read (snd (mergeConfiguration this h)) (next_addr h) ''callbackValidEntry'' = JFun f)"
  using typeof_function
  by (auto simp add: resolved_callbackInvalidEntry resolved_callbackValidEntry)

subsection \<open>The claims about the configuration\<close>

text \<open>
  C5, as stated, fails where the caller's object has the field with the value
  \<^verbatim>\<open>undefined\<close>: for \<^verbatim>\<open>new Numeric(el, {negative: undefined})\<close> and an element
  without the attribute, the field \<^verbatim>\<open>negative\<close> is present in \<open>U\<close>, and the merged
  value is the default \<^verbatim>\<open>true\<close>, not the \<^verbatim>\<open>undefined\<close> of \<open>U\<close>.
\<close>

theorem merge_sources_present_undefined_counterexample:
  "read (snd (merge_sources (Numeric (Some 0) (Some 1) None)
            \<lparr>next_addr = 2,
             cells = (\<lambda>a. Map.empty)(0 := defaults, 1 := [''negative'' \<mapsto> JUndefined])\<rparr>))
        (fst (merge_sources (Numeric (Some 0) (Some 1) None)
            \<lparr>next_addr = 2,
             cells = (\<lambda>a. Map.empty)(0 := defaults, 1 := [''negative'' \<mapsto> JUndefined])\<rparr>))
        ''negative'' = JBool True
   \<and> override_present defaults [''negative'' \<mapsto> JUndefined] Map.empty ''negative'' = JUndefined"
  by (simp add: merge_sources_def new_object_def jq_extend_def extend_from_def read_def
      get_prop_def defaults_def defaults_addr_def Numeric_def override_present_def)

text \<open>
  C5, amended. For every field \<open>k\<close> and every default object \<open>D\<close>, caller's object \<open>U\<close>
  and attribute object \<open>M\<close> (each of the two may be missing), the value of \<open>k\<close> in the
  object that the first statement of \<^verbatim>\<open>mergeConfiguration\<close> builds is that of \<open>M\<close> when
  \<open>M\<close> gives \<open>k\<close> a value other than \<^verbatim>\<open>undefined\<close>, otherwise that of \<open>U\<close> when
  \<open>U\<close> gives \<open>k\<close> a value other than \<^verbatim>\<open>undefined\<close>, otherwise that of \<open>D\<close>. Where
  neither \<open>U\<close> nor \<open>M\<close> holds \<open>k\<close> with the value \<^verbatim>\<open>undefined\<close>, this is the order of
  the specification: \<open>M\<close> if present, else \<open>U\<close> if present, else \<open>D\<close>.
\<close>

theorem merge_sources_override_order:
  assumes "defaults_addr < next_addr h" "allocated h (options this)" "allocated h (metadata this)"
  shows "read (snd (merge_sources this h)) (fst (merge_sources this h)) k =
       override_defined (cells h defaults_addr) (object_at h (options this))
         (object_at h (metadata this)) k
     \<and> (object_at h (options this) k \<noteq> Some JUndefined
          \<and> object_at h (metadata this) k \<noteq> Some JUndefined \<longrightarrow>
        read (snd (merge_sources this h)) (fst (merge_sources this h)) k =
          override_present (cells h defaults_addr) (object_at h (options this))
            (object_at h (metadata this)) k)"
  by (auto simp add: merge_sources_fst merge_sources_read [OF assms] override_defined_def
      override_present_def get_prop_def split: option.splits)

theorem merge_sources_override_order_witness:
  "defaults_addr < next_addr
       \<lparr>next_addr = 3,
        cells = (\<lambda>a. Map.empty)(0 := defaults, 1 := [''decimal'' \<mapsto> JStr '',''],
                  2 := [''decimal'' \<mapsto> JStr ''#''])\<rparr>
   \<and> read (snd (merge_sources (Numeric (Some 0) (Some 1) (Some 2))
            \<lparr>next_addr = 3,
             cells = (\<lambda>a. Map.empty)(0 := defaults, 1 := [''decimal'' \<mapsto> JStr '',''],
                       2 := [''decimal'' \<mapsto> JStr ''#''])\<rparr>))
        (fst (merge_sources (Numeric (Some 0) (Some 1) (Some 2))
            \<lparr>next_addr = 3,
             cells = (\<lambda>a. Map.empty)(0 := defaults, 1 := [''decimal'' \<mapsto> JStr '',''],
                       2 := [''decimal'' \<mapsto> JStr ''#''])\<rparr>))
        ''decimal'' = JStr ''#''"
proof -
  let ?h = "\<lparr>next_addr = 3,
             cells = (\<lambda>a. Map.empty)(0 := defaults, 1 := [''decimal'' \<mapsto> JStr '',''],
                       2 := [''decimal'' \<mapsto> JStr ''#''])\<rparr>"
  let ?t = "Numeric (Some 0) (Some 1) (Some 2)"
  have a: "defaults_addr < next_addr ?h" by (simp add: defaults_addr_def)
  have b: "allocated ?h (options ?t)" by (simp add: allocated_def Numeric_def)
  have c: "allocated ?h (metadata ?t)" by (simp add: allocated_def Numeric_def)
  from merge_sources_override_order [OF a b c, of "''decimal''"]
  have "read (snd (merge_sources ?t ?h)) (fst (merge_sources ?t ?h)) ''decimal'' = JStr ''#''"
    by (simp add: override_defined_def object_at_def Numeric_def get_prop_def)
  with a show ?thesis by simp
qed

text \<open>
  C10. \<^verbatim>\<open>mergeConfiguration\<close> leaves the shared defaults object as it was, whatever the
  instance, its options and the store: the configuration it resolves is another object.
  (Lemma \<open>mergeConfiguration_frame\<close>: it changes no object that existed before the call.)
\<close>

lemma cells_step_other:
  "a \<noteq> c \<Longrightarrow> cells (reset_non_boolean k c h) a = cells h a"
  "a \<noteq> c \<Longrightarrow> cells (reset_decimal c h) a = cells h a"
  "a \<noteq> c \<Longrightarrow> cells (decimal_character c h) a = cells h a"
  "a \<noteq> c \<Longrightarrow> cells (resolve_decimalPlaces c h) a = cells h a"
  "a \<noteq> c \<Longrightarrow> cells (reset_non_function k c h) a = cells h a"
  by (simp_all add: reset_non_boolean_def reset_decimal_def decimal_character_def
      resolve_decimalPlaces_def reset_non_function_def cells_store_other)

lemma mergeConfiguration_frame:
  "a \<noteq> next_addr h \<Longrightarrow> cells (snd (mergeConfiguration this h)) a = cells h a"
  by (simp add: mergeConfiguration_unfold cells_step_other merge_sources_other)

theorem mergeConfiguration_leaves_defaults:
  assumes "defaults_addr < next_addr h"
  shows "cells (snd (mergeConfiguration this h)) defaults_addr = cells h defaults_addr
     \<and> config (fst (mergeConfiguration this h)) \<noteq> Some defaults_addr"
  using assms by (simp add: mergeConfiguration_frame) (simp add: mergeConfiguration_unfold)

theorem mergeConfiguration_leaves_defaults_witness:
  "defaults_addr < next_addr \<lparr>next_addr = 1, cells = (\<lambda>a. Map.empty)(0 := defaults)\<rparr>
   \<and> cells (snd (mergeConfiguration (Numeric (Some 0) (Some 0) None)
               \<lparr>next_addr = 1, cells = (\<lambda>a. Map.empty)(0 := defaults)\<rparr>)) defaults_addr = defaults"
proof -
  have a: "defaults_addr < next_addr \<lparr>next_addr = 1, cells = (\<lambda>a. Map.empty)(0 := defaults)\<rparr>"
    by (simp add: defaults_addr_def)
  from mergeConfiguration_leaves_defaults [OF a, of "Numeric (Some 0) (Some 0) None"]
  have "cells (snd (mergeConfiguration (Numeric (Some 0) (Some 0) None)
               \<lparr>next_addr = 1, cells = (\<lambda>a. Map.empty)(0 := defaults)\<rparr>)) defaults_addr = defaults"
    by (simp add: defaults_addr_def)
  with a show ?thesis by simp
qed


text \<open>
  C6. The specification says that every resolved field holds a value of its type, for
  \<^verbatim>\<open>decimalPlaces\<close> an integer or the marker of no limit, which is the default
  \<^verbatim>\<open>undefined\<close>. In the code, with the defaults of the source, an instance for which
  neither the caller nor the attribute supplies \<^verbatim>\<open>decimalPlaces\<close> resolves it to
  \<^verbatim>\<open>NaN\<close>: the conditional takes the branch \<^verbatim>\<open>+this.config.decimalPlaces\<close> and
  the unary plus turns \<^verbatim>\<open>undefined\<close> into \<^verbatim>\<open>NaN\<close>. (The other fields do hold
  values of their types: lemmas \<open>resolved_booleans\<close>, \<open>resolved_decimal_character\<close>,
  \<open>resolved_callbacks\<close>, and \<open>resolved_decimalPlaces_cases\<close> for the forms of
  \<^verbatim>\<open>decimalPlaces\<close>.)
\<close>

theorem unsupplied_decimalPlaces_resolves_to_NaN:
  assumes "defaults_addr < next_addr h" "allocated h (options this)" "allocated h (metadata this)"
    and "cells h defaults_addr = defaults"
    and "supplied h this ''decimalPlaces'' = JUndefined"
  shows "this_config (fst (mergeConfiguration this h)) (snd (mergeConfiguration this h))
           ''decimalPlaces'' = Inr (JNum NaN)"
proof -
  have m: "read (snd (merge_sources this h)) (next_addr h) ''decimalPlaces'' = JUndefined"
    by (simp add: merged_supplied [OF assms(1-3)] assms(4,5) defaults_values)
  have d: "read h defaults_addr ''decimalPlaces'' = JUndefined"
    by (simp add: read_def assms(4) defaults_values)
  show ?thesis
    by (simp add: this_config_mergeConfiguration resolved_decimalPlaces [OF assms(1)] m d
        strict_eq_def to_number_def)
qed

theorem unsupplied_decimalPlaces_resolves_to_NaN_witness:
  "supplied \<lparr>next_addr = 1, cells = (\<lambda>a. Map.empty)(0 := defaults)\<rparr> (Numeric (Some 0) None None)
       ''decimalPlaces'' = JUndefined
   \<and> this_config
        (fst (mergeConfiguration (Numeric (Some 0) None None)
                \<lparr>next_addr = 1, cells = (\<lambda>a. Map.empty)(0 := defaults)\<rparr>))
        (snd (mergeConfiguration (Numeric (Some 0) None None)
                \<lparr>next_addr = 1, cells = (\<lambda>a. Map.empty)(0 := defaults)\<rparr>))
        ''decimalPlaces'' = Inr (JNum NaN)"
proof -
  let ?h = "\<lparr>next_addr = 1, cells = (\<lambda>a. Map.empty)(0 := defaults)\<rparr>"
  let ?t = "Numeric (Some 0) None None"
  have a: "defaults_addr < next_addr ?h" by (simp add: defaults_addr_def)
  have b: "allocated ?h (options ?t)" by (simp add: allocated_def Numeric_def)
  have c: "allocated ?h (metadata ?t)" by (simp add: allocated_def Numeric_def)
  have d: "cells ?h defaults_addr = defaults" by (simp add: defaults_addr_def)
  have e: "supplied ?h ?t ''decimalPlaces'' = JUndefined"
    by (simp add: supplied_def object_at_def Numeric_def get_prop_def)
  from e unsupplied_decimalPlaces_resolves_to_NaN [OF a b c d e] show ?thesis by blast
qed

text \<open>
  C7. With the defaults of the source, the \<^verbatim>\<open>decimal\<close> option that the caller or the
  attribute supplies resolves as follows: \<^verbatim>\<open>true\<close> to \<^verbatim>\<open>"."\<close>; a string of one
  character to itself; \<^verbatim>\<open>false\<close>, a string whose length is not 1, and every value that
  is not a string (also none supplied) to \<^verbatim>\<open>"."\<close>.
\<close>

theorem decimal_resolution:
  assumes "defaults_addr < next_addr h" "allocated h (options this)" "allocated h (metadata this)"
    and "cells h defaults_addr = defaults"
  shows
    "(supplied h this ''decimal'' = JBool True \<longrightarrow>
        this_config (fst (mergeConfiguration this h)) (snd (mergeConfiguration this h))
          ''decimal'' = Inr (JStr ''.''))
     \<and> (\<forall>c. supplied h this ''decimal'' = JStr [c] \<longrightarrow>
        this_config (fst (mergeConfiguration this h)) (snd (mergeConfiguration this h))
          ''decimal'' = Inr (JStr [c]))
     \<and> (supplied h this ''decimal'' = JBool False \<longrightarrow>
        this_config (fst (mergeConfiguration this h)) (snd (mergeConfiguration this h))
          ''decimal'' = Inr (JStr ''.''))
     \<and> (\<forall>s. supplied h this ''decimal'' = JStr s \<and> length s \<noteq> 1 \<longrightarrow>
        this_config (fst (mergeConfiguration this h)) (snd (mergeConfiguration this h))
          ''decimal'' = Inr (JStr ''.''))
     \<and> (typeof (supplied h this ''decimal'') \<noteq> ''string'' \<longrightarrow>
        this_config (fst (mergeConfiguration this h)) (snd (mergeConfiguration this h))
          ''decimal'' = Inr (JStr ''.''))"
proof -
  define v where "v = supplied h this ''decimal''"
  define d where "d = this_config (fst (mergeConfiguration this h))
    (snd (mergeConfiguration this h)) ''decimal''"
  have m: "read (snd (merge_sources this h)) (next_addr h) ''decimal'' =
      (if v \<noteq> JUndefined then v else JBool True)"
    by (simp add: merged_supplied [OF assms(1-3)] assms(4) defaults_values v_def)
  have dflt: "read h defaults_addr ''decimal'' = JBool True"
    by (simp add: read_def assms(4) defaults_values)
  have r: "d = Inr (case v of JStr s \<Rightarrow> if length s = 1 then JStr s else JStr ''.''
                     | _ \<Rightarrow> JStr ''.'')"
    unfolding d_def
    by (cases v)
      (simp_all add: this_config_mergeConfiguration resolved_decimal [OF assms(1)] m dflt
        Let_def strict_eq_def typeof_def)
  have "(v = JBool True \<longrightarrow> d = Inr (JStr ''.''))
     \<and> (\<forall>c. v = JStr [c] \<longrightarrow> d = Inr (JStr [c]))
     \<and> (v = JBool False \<longrightarrow> d = Inr (JStr ''.''))
     \<and> (\<forall>s. v = JStr s \<and> length s \<noteq> 1 \<longrightarrow> d = Inr (JStr ''.''))
     \<and> (typeof v \<noteq> ''string'' \<longrightarrow> d = Inr (JStr ''.''))"
    unfolding r by (cases v) (simp_all add: typeof_def)
  then show ?thesis
    unfolding v_def d_def .
qed

theorem decimal_resolution_witness:
  "supplied \<lparr>next_addr = 2,
             cells = (\<lambda>a. Map.empty)(0 := defaults, 1 := [''decimal'' \<mapsto> JStr ''#''])\<rparr>
       (Numeric (Some 0) (Some 1) None) ''decimal'' = JStr ''#''
   \<and> this_config
        (fst (mergeConfiguration (Numeric (Some 0) (Some 1) None)
                \<lparr>next_addr = 2,
                 cells = (\<lambda>a. Map.empty)(0 := defaults, 1 := [''decimal'' \<mapsto> JStr ''#''])\<rparr>))
        (snd (mergeConfiguration (Numeric (Some 0) (Some 1) None)
                \<lparr>next_addr = 2,
                 cells = (\<lambda>a. Map.empty)(0 := defaults, 1 := [''decimal'' \<mapsto> JStr ''#''])\<rparr>))
        ''decimal'' = Inr (JStr ''#'')"
proof -
  let ?h = "\<lparr>next_addr = 2,
             cells = (\<lambda>a. Map.empty)(0 := defaults, 1 := [''decimal'' \<mapsto> JStr ''#''])\<rparr>"
  let ?t = "Numeric (Some 0) (Some 1) None"
  have a: "defaults_addr < next_addr ?h" by (simp add: defaults_addr_def)
  have b: "allocated ?h (options ?t)" by (simp add: allocated_def Numeric_def)
  have c: "allocated ?h (metadata ?t)" by (simp add: allocated_def Numeric_def)
  have d: "cells ?h defaults_addr = defaults" by (simp add: defaults_addr_def)
  have e: "supplied ?h ?t ''decimal'' = JStr ''#''"
    by (simp add: supplied_def object_at_def Numeric_def get_prop_def)
  from e decimal_resolution [OF a b c d] show ?thesis by blast
qed

lemma resolved_decimalPlaces_supplied:
  assumes "defaults_addr < next_addr h" "allocated h (options this)" "allocated h (metadata this)"
    and "cells h defaults_addr = defaults"
    and "supplied h this ''decimalPlaces'' \<noteq> JUndefined"
  shows "this_config (fst (mergeConfiguration this h)) (snd (mergeConfiguration this h))
      ''decimalPlaces'' =
    Inr (if num_strict_eq (to_number (supplied h this ''decimalPlaces''))
            (parseInt10 (supplied h this ''decimalPlaces''))
         then JNum (to_number (supplied h this ''decimalPlaces'')) else JUndefined)"
proof -
  define v where "v = supplied h this ''decimalPlaces''"
  have nz: "v \<noteq> JUndefined" using assms(5) by (simp add: v_def)
  have m: "read (snd (merge_sources this h)) (next_addr h) ''decimalPlaces'' = v"
    using nz by (simp add: merged_supplied [OF assms(1-3)] v_def)
  have dflt: "read h defaults_addr ''decimalPlaces'' = JUndefined"
    by (simp add: read_def assms(4) defaults_values)
  have ne: "\<not> strict_eq v JUndefined"
    using nz by (cases v) (simp_all add: strict_eq_def)
  show ?thesis
    unfolding v_def [symmetric]
    by (simp add: this_config_mergeConfiguration resolved_decimalPlaces [OF assms(1)] m dflt ne)
qed

lemma digit_string_overflow:
  "list_all is_digit (CHR ''2'' # replicate 308 (CHR ''0''))"
  "to_number (JStr (CHR ''2'' # replicate 308 (CHR ''0''))) = PosInf"
  "parseInt10 (JStr (CHR ''2'' # replicate 308 (CHR ''0''))) = PosInf"
proof -
  let ?s = "CHR ''2'' # replicate 308 (CHR ''0'')"
  show d: "list_all is_digit ?s" by (simp add: is_digit_def list_all_iff)
  have ne: "?s \<noteq> []" by simp
  have "decimal_value ([CHR ''2''] @ replicate 308 (CHR ''0'')) = decimal_value [CHR ''2''] * 10 ^ 308"
    by (rule decimal_value_zeros)
  then have v: "decimal_value ?s = 2 * 10 ^ 308"
    by (simp add: decimal_value_def digit_index_def)
  have big: "(2::nat) ^ 1024 \<le> 2 * 10 ^ 308" by simp
  show "to_number (JStr ?s) = PosInf"
    unfolding to_number_digit_string [OF ne d] v by (rule round_double_overflow [OF big])
  show "parseInt10 (JStr ?s) = PosInf"
    unfolding parseInt10_digit_string [OF ne d] v by (rule round_double_overflow [OF big])
qed

text \<open>
  C8, as stated, fails for a string of digits whose value is beyond the range of a double:
  for \<^verbatim>\<open>decimalPlaces\<close> supplied as the digit 2 followed by 308 zeros, both \<^verbatim>\<open>+v\<close> and
  \<^verbatim>\<open>parseInt(v, 10)\<close> are \<^verbatim>\<open>Infinity\<close>, so the value passes the test of the code,
  and it resolves to \<^verbatim>\<open>Infinity\<close>, which is not an integer.
\<close>

theorem decimalPlaces_infinity_counterexample:
  "num_strict_eq (to_number (JStr (CHR ''2'' # replicate 308 (CHR ''0''))))
     (parseInt10 (JStr (CHR ''2'' # replicate 308 (CHR ''0''))))
   \<and> this_config
        (fst (mergeConfiguration (Numeric (Some 0) (Some 1) None)
                \<lparr>next_addr = 2,
                 cells = (\<lambda>a. Map.empty)(0 := defaults,
                   1 := [''decimalPlaces'' \<mapsto> JStr (CHR ''2'' # replicate 308 (CHR ''0''))])\<rparr>))
        (snd (mergeConfiguration (Numeric (Some 0) (Some 1) None)
                \<lparr>next_addr = 2,
                 cells = (\<lambda>a. Map.empty)(0 := defaults,
                   1 := [''decimalPlaces'' \<mapsto> JStr (CHR ''2'' # replicate 308 (CHR ''0''))])\<rparr>))
        ''decimalPlaces'' = Inr (JNum PosInf)
   \<and> \<not> is_integer PosInf"
proof -
  let ?v = "JStr (CHR ''2'' # replicate 308 (CHR ''0''))"
  let ?h = "\<lparr>next_addr = 2,
             cells = (\<lambda>a. Map.empty)(0 := defaults, 1 := [''decimalPlaces'' \<mapsto> ?v])\<rparr>"
  let ?t = "Numeric (Some 0) (Some 1) None"
  have a: "defaults_addr < next_addr ?h" by (simp add: defaults_addr_def)
  have b: "allocated ?h (options ?t)" by (simp add: allocated_def Numeric_def)
  have c: "allocated ?h (metadata ?t)" by (simp add: allocated_def Numeric_def)
  have d: "cells ?h defaults_addr = defaults" by (simp add: defaults_addr_def)
  have e: "supplied ?h ?t ''decimalPlaces'' = ?v"
    by (simp add: supplied_def object_at_def Numeric_def get_prop_def)
  have f: "supplied ?h ?t ''decimalPlaces'' \<noteq> JUndefined"
    unfolding e by simp
  have rt: "num_strict_eq (to_number ?v) (parseInt10 ?v)"
    unfolding digit_string_overflow by (simp add: num_strict_eq_def)
  have "this_config (fst (mergeConfiguration ?t ?h)) (snd (mergeConfiguration ?t ?h))
      ''decimalPlaces'' = Inr (JNum PosInf)"
    unfolding resolved_decimalPlaces_supplied [OF a b c d f] e using rt
    by (simp add: digit_string_overflow)
  moreover have "\<not> is_integer PosInf" by (simp add: is_integer_def)
  ultimately show ?thesis using rt by blast
qed

text \<open>
  C8, amended. With the defaults of the source, a \<^verbatim>\<open>decimalPlaces\<close> option \<open>v\<close> that is
  supplied (not \<^verbatim>\<open>undefined\<close>) resolves to the number \<^verbatim>\<open>+v\<close> when
  \<^verbatim>\<open>+v === parseInt(v, 10)\<close>, and that number is then an integer or, for digits beyond
  the range of a double, an infinity; it resolves to the default \<^verbatim>\<open>undefined\<close> (no
  limit) otherwise. In particular: a string of decimal digits resolves to the double nearest
  to the integer it denotes, which below \<open>2^53\<close> is that integer, so \<^verbatim>\<open>"3"\<close> resolves
  to 3; a number that is a non-negative integer below \<open>2^53\<close> resolves to itself; a number
  that is not an integer, a boolean, \<^verbatim>\<open>null\<close>, a function, \<^verbatim>\<open>"3.5"\<close> and
  \<^verbatim>\<open>"abc"\<close> resolve to the default; and \<^verbatim>\<open>"4.0000000000000000001"\<close>, which
  rounds to the double 4, resolves to 4 (\<open>Fin 1 2\<close>).
\<close>

theorem decimalPlaces_round_trip:
  assumes "defaults_addr < next_addr h" "allocated h (options this)" "allocated h (metadata this)"
    and "cells h defaults_addr = defaults"
    and "supplied h this ''decimalPlaces'' \<noteq> JUndefined"
  shows
    "(num_strict_eq (to_number (supplied h this ''decimalPlaces''))
         (parseInt10 (supplied h this ''decimalPlaces'')) \<longrightarrow>
        this_config (fst (mergeConfiguration this h)) (snd (mergeConfiguration this h))
          ''decimalPlaces'' = Inr (JNum (to_number (supplied h this ''decimalPlaces'')))
        \<and> (is_integer (to_number (supplied h this ''decimalPlaces''))
           \<or> to_number (supplied h this ''decimalPlaces'') = PosInf
           \<or> to_number (supplied h this ''decimalPlaces'') = NegInf))
     \<and> (\<not> num_strict_eq (to_number (supplied h this ''decimalPlaces''))
         (parseInt10 (supplied h this ''decimalPlaces'')) \<longrightarrow>
        this_config (fst (mergeConfiguration this h)) (snd (mergeConfiguration this h))
          ''decimalPlaces'' = Inr JUndefined)
     \<and> (\<forall>s. supplied h this ''decimalPlaces'' = JStr s \<and> s \<noteq> [] \<and> list_all is_digit s \<longrightarrow>
        this_config (fst (mergeConfiguration this h)) (snd (mergeConfiguration this h))
          ''decimalPlaces'' = Inr (JNum (round_double False (decimal_value s) 1)))
     \<and> (\<forall>s. supplied h this ''decimalPlaces'' = JStr s \<and> s \<noteq> [] \<and> list_all is_digit s
            \<and> decimal_value s < 2 ^ 53 \<longrightarrow>
        this_config (fst (mergeConfiguration this h)) (snd (mergeConfiguration this h))
          ''decimalPlaces'' = Inr (JNum (normalise (int (decimal_value s)) 0)))
     \<and> (\<forall>N. supplied h this ''decimalPlaces'' = JNum (normalise (int N) 0) \<and> N < 2 ^ 53 \<longrightarrow>
        this_config (fst (mergeConfiguration this h)) (snd (mergeConfiguration this h))
          ''decimalPlaces'' = Inr (JNum (normalise (int N) 0)))
     \<and> (\<forall>x. supplied h this ''decimalPlaces'' = JNum x \<and> \<not> is_integer x \<longrightarrow>
        this_config (fst (mergeConfiguration this h)) (snd (mergeConfiguration this h))
          ''decimalPlaces'' = Inr JUndefined)
     \<and> (typeof (supplied h this ''decimalPlaces'') = ''boolean''
          \<or> supplied h this ''decimalPlaces'' = JNull
          \<or> typeof (supplied h this ''decimalPlaces'') = ''function'' \<longrightarrow>
        this_config (fst (mergeConfiguration this h)) (snd (mergeConfiguration this h))
          ''decimalPlaces'' = Inr JUndefined)
     \<and> (supplied h this ''decimalPlaces'' = JStr ''3'' \<longrightarrow>
        this_config (fst (mergeConfiguration this h)) (snd (mergeConfiguration this h))
          ''decimalPlaces'' = Inr (JNum (Fin 3 0)))
     \<and> (supplied h this ''decimalPlaces'' = JStr ''abc'' \<longrightarrow>
        this_config (fst (mergeConfiguration this h)) (snd (mergeConfiguration this h))
          ''decimalPlaces'' = Inr JUndefined)
     \<and> (supplied h this ''decimalPlaces'' = JStr ''3.5'' \<longrightarrow>
        this_config (fst (mergeConfiguration this h)) (snd (mergeConfiguration this h))
          ''decimalPlaces'' = Inr JUndefined)
     \<and> (supplied h this ''decimalPlaces'' = JStr ''4.0000000000000000001'' \<longrightarrow>
        this_config (fst (mergeConfiguration this h)) (snd (mergeConfiguration this h))
          ''decimalPlaces'' = Inr (JNum (Fin 1 2)))"
proof -
  define v where "v = supplied h this ''decimalPlaces''"
  define dp where "dp = this_config (fst (mergeConfiguration this h))
    (snd (mergeConfiguration this h)) ''decimalPlaces''"
  have r: "dp = Inr (if num_strict_eq (to_number v) (parseInt10 v) then JNum (to_number v)
                     else JUndefined)"
    unfolding dp_def v_def by (rule resolved_decimalPlaces_supplied [OF assms])
  have c1: "num_strict_eq (to_number v) (parseInt10 v) \<longrightarrow>
      dp = Inr (JNum (to_number v))
      \<and> (is_integer (to_number v) \<or> to_number v = PosInf \<or> to_number v = NegInf)"
    using round_trip_integer [of v] by (simp add: r)
  have c2: "\<not> num_strict_eq (to_number v) (parseInt10 v) \<longrightarrow> dp = Inr JUndefined"
    by (simp add: r)
  have c3: "dp = Inr (JNum (round_double False (decimal_value s) 1))"
    if "v = JStr s" "s \<noteq> []" "list_all is_digit s" for s
  proof -
    have t: "to_number v = round_double False (decimal_value s) 1"
      and p: "parseInt10 v = round_double False (decimal_value s) 1"
      unfolding that(1) using that(2,3)
      by (simp_all add: to_number_digit_string parseInt10_digit_string)
    have "round_double False (decimal_value s) 1 \<noteq> NaN"
      using round_double_integer [of False "decimal_value s"] by (auto simp add: is_integer_def)
    then show ?thesis by (simp add: r t p num_strict_eq_def)
  qed
  have c4: "dp = Inr (JNum (normalise (int (decimal_value s)) 0))"
    if "v = JStr s" "s \<noteq> []" "list_all is_digit s" "decimal_value s < 2 ^ 53" for s
    using c3 [OF that(1-3)] round_double_exact [OF that(4)] by simp
  have c5: "dp = Inr (JNum (normalise (int N) 0))"
    if "v = JNum (normalise (int N) 0)" "N < 2 ^ 53" for N
  proof -
    have "normalise (int N) 0 \<noteq> NaN" using normalise_Fin [of "int N" 0] by auto
    then show ?thesis
      by (simp add: r that(1) to_number_def parseInt10_of_integer [OF that(2)] num_strict_eq_def)
  qed
  have c6: "dp = Inr JUndefined" if "v = JNum x" "\<not> is_integer x" for x
  proof -
    have "\<not> num_strict_eq (to_number v) (parseInt10 v)"
    proof
      assume rt: "num_strict_eq (to_number v) (parseInt10 v)"
      from round_trip_integer [OF rt] that have inf: "x = PosInf \<or> x = NegInf"
        by (simp add: to_number_def)
      with rt that(1) show False
        by (auto simp add: to_number_def parseInt10_no_digits num_strict_eq_def is_zero_def)
    qed
    then show ?thesis by (simp add: r)
  qed
  have c7: "typeof v = ''boolean'' \<or> v = JNull \<or> typeof v = ''function'' \<longrightarrow> dp = Inr JUndefined"
    by (cases v) (simp_all add: r typeof_def parseInt10_no_digits num_strict_eq_def is_zero_def
        to_number_def)
  have c8: "v = JStr ''3'' \<longrightarrow> dp = Inr (JNum (Fin 3 0))"
    by (simp add: r to_number_3 parseInt10_3 num_strict_eq_def)
  have c9: "v = JStr ''abc'' \<longrightarrow> dp = Inr JUndefined"
    by (simp add: r to_number_abc num_strict_eq_def)
  have c10: "v = JStr ''3.5'' \<longrightarrow> dp = Inr JUndefined"
    by (simp add: r to_number_fraction parseInt10_fraction num_strict_eq_def is_zero_def)
  have c11: "v = JStr ''4.0000000000000000001'' \<longrightarrow> dp = Inr (JNum (Fin 1 2))"
    by (simp add: r to_number_rounds parseInt10_rounds num_strict_eq_def)
  from c1 c2 c3 c4 c5 c6 c7 c8 c9 c10 c11 have
    "(num_strict_eq (to_number v) (parseInt10 v) \<longrightarrow>
        dp = Inr (JNum (to_number v))
        \<and> (is_integer (to_number v) \<or> to_number v = PosInf \<or> to_number v = NegInf))
     \<and> (\<not> num_strict_eq (to_number v) (parseInt10 v) \<longrightarrow> dp = Inr JUndefined)
     \<and> (\<forall>s. v = JStr s \<and> s \<noteq> [] \<and> list_all is_digit s \<longrightarrow>
        dp = Inr (JNum (round_double False (decimal_value s) 1)))
     \<and> (\<forall>s. v = JStr s \<and> s \<noteq> [] \<and> list_all is_digit s \<and> decimal_value s < 2 ^ 53 \<longrightarrow>
        dp = Inr (JNum (normalise (int (decimal_value s)) 0)))
     \<and> (\<forall>N. v = JNum (normalise (int N) 0) \<and> N < 2 ^ 53 \<longrightarrow>
        dp = Inr (JNum (normalise (int N) 0)))
     \<and> (\<forall>x. v = JNum x \<and> \<not> is_integer x \<longrightarrow> dp = Inr JUndefined)
     \<and> (typeof v = ''boolean'' \<or> v = JNull \<or> typeof v = ''function'' \<longrightarrow> dp = Inr JUndefined)
     \<and> (v = JStr ''3'' \<longrightarrow> dp = Inr (JNum (Fin 3 0)))
     \<and> (v = JStr ''abc'' \<longrightarrow> dp = Inr JUndefined)
     \<and> (v = JStr ''3.5'' \<longrightarrow> dp = Inr JUndefined)
     \<and> (v = JStr ''4.0000000000000000001'' \<longrightarrow> dp = Inr (JNum (Fin 1 2)))"
    by blast
  then show ?thesis
    unfolding v_def dp_def .
qed

theorem decimalPlaces_round_trip_witness:
  "supplied \<lparr>next_addr = 2,
             cells = (\<lambda>a. Map.empty)(0 := defaults, 1 := [''decimalPlaces'' \<mapsto> JStr ''3''])\<rparr>
       (Numeric (Some 0) (Some 1) None) ''decimalPlaces'' = JStr ''3''
   \<and> this_config
        (fst (mergeConfiguration (Numeric (Some 0) (Some 1) None)
                \<lparr>next_addr = 2,
                 cells = (\<lambda>a. Map.empty)(0 := defaults, 1 := [''decimalPlaces'' \<mapsto> JStr ''3''])\<rparr>))
        (snd (mergeConfiguration (Numeric (Some 0) (Some 1) None)
                \<lparr>next_addr = 2,
                 cells = (\<lambda>a. Map.empty)(0 := defaults, 1 := [''decimalPlaces'' \<mapsto> JStr ''3''])\<rparr>))
        ''decimalPlaces'' = Inr (JNum (Fin 3 0))"
proof -
  let ?h = "\<lparr>next_addr = 2,
             cells = (\<lambda>a. Map.empty)(0 := defaults, 1 := [''decimalPlaces'' \<mapsto> JStr ''3''])\<rparr>"
  let ?t = "Numeric (Some 0) (Some 1) None"
  have a: "defaults_addr < next_addr ?h" by (simp add: defaults_addr_def)
  have b: "allocated ?h (options ?t)" by (simp add: allocated_def Numeric_def)
  have c: "allocated ?h (metadata ?t)" by (simp add: allocated_def Numeric_def)
  have d: "cells ?h defaults_addr = defaults" by (simp add: defaults_addr_def)
  have e: "supplied ?h ?t ''decimalPlaces'' = JStr ''3''"
    by (simp add: supplied_def object_at_def Numeric_def get_prop_def)
  have f: "supplied ?h ?t ''decimalPlaces'' \<noteq> JUndefined"
    unfolding e by simp
  from e decimalPlaces_round_trip [OF a b c d f] show ?thesis by blast
qed

end
